theory Spec2Isabelle
  imports Complex_Main "HOL-Library.List_Lexorder" "HOL-Library.Char_ord" "HOL-Library.Log_Nat"
begin

section \<open>Python, numpy and torch primitives used by \<^verbatim>\<open>visualize_predictions.py\<close>\<close>

text \<open>
  The script is glue over torch, numpy, matplotlib and \<^verbatim>\<open>os\<close>. Each library call it makes is
  written here as a total function; where the library raises, the function returns the
  exception as a value (\<open>Inl\<close>). A finite float is the \<^typ>\<open>real\<close> number it stands for. The
  float32 arithmetic on the coordinates (lines 59 to 71) is rounded as IEEE 754 rounds it;
  the one float64 division of \<^verbatim>\<open>np.mean\<close> is written as the exact quotient.
\<close>

datatype py_error = IndexError | ValueError | FileNotFoundError | KeyError | RuntimeError | OSError

text \<open>
  \<^verbatim>\<open>xs[i]\<close> on a Python list: a negative index counts from the end, an index outside
  \<open>-len .. len-1\<close> raises IndexError.
\<close>

definition py_index :: "'a list \<Rightarrow> int \<Rightarrow> py_error + 'a" where
  "py_index xs i =
     (let n = int (length xs); j = (if i < 0 then i + n else i)
      in if 0 \<le> j \<and> j < n then Inr (xs ! nat j) else Inl IndexError)"

text \<open>
  A list comprehension \<^verbatim>\<open>[f(c) for c in cs]\<close> whose body may raise: the first element that
  raises ends the comprehension with that exception.
\<close>

fun map_result :: "('a \<Rightarrow> py_error + 'b) \<Rightarrow> 'a list \<Rightarrow> py_error + 'b list" where
  "map_result f [] = Inr []"
| "map_result f (a # as) =
     (case f a of
        Inl e \<Rightarrow> Inl e
      | Inr b \<Rightarrow> (case map_result f as of Inl e \<Rightarrow> Inl e | Inr bs \<Rightarrow> Inr (b # bs)))"

text \<open>
  IEEE 754 binary32, round to nearest, ties to even. \<open>rne\<close> rounds a real to the nearest
  integer, a tie going to the even one. \<open>f32_near x\<close> is the float32 nearest to \<open>x\<close> when the
  exponent is not bounded above: \<open>\<bar>x\<bar>\<close> is counted in units of \<open>1 / 2 ^ 149\<close>, the smallest
  subnormal, and all but its leading 24 bits are rounded away (none below \<open>1 / 2 ^ 125\<close>,
  where the spacing stays \<open>1 / 2 ^ 149\<close>). \<open>f32_round\<close> is the result of an operation whose exact value
  is \<open>x\<close>: \<open>None\<close> when it overflows to an infinity. \<open>f32_op\<close> applies an operation to operands
  that may themselves be infinite or NaN (\<open>None\<close>); for the operations used here (sum,
  difference, product with 0.5, quotient by 2) the result is then not finite either.
\<close>

definition rne :: "real \<Rightarrow> int" where
  "rne y =
     (let f = \<lfloor>y\<rfloor>; d = y - of_int f
      in if d < 1 / 2 then f else if 1 / 2 < d then f + 1 else if even f then f else f + 1)"

definition f32_near :: "real \<Rightarrow> real" where
  "f32_near x =
     (let n = \<bar>x\<bar> * 2 ^ 149;
          shift = nat (bitlen \<lfloor>n\<rfloor> - 24);
          m = rne (n / 2 ^ shift) * 2 ^ shift
      in sgn x * of_int m / 2 ^ 149)"

definition f32_round :: "real \<Rightarrow> real option" where
  "f32_round x = (if 2 ^ 128 \<le> \<bar>f32_near x\<bar> then None else Some (f32_near x))"

definition f32_op :: "(real \<Rightarrow> real \<Rightarrow> real) \<Rightarrow> real option \<Rightarrow> real option \<Rightarrow> real option" where
  "f32_op f a b =
     (case a of None \<Rightarrow> None
      | Some u \<Rightarrow> (case b of None \<Rightarrow> None | Some v \<Rightarrow> f32_round (f u v)))"

text \<open>
  \<^verbatim>\<open>a.max()\<close> and \<^verbatim>\<open>a.min()\<close> of a one-dimensional numpy array: the reduction has no identity,
  so an empty array raises ValueError.
\<close>

definition np_max :: "real list \<Rightarrow> py_error + real" where
  "np_max xs = (case xs of [] \<Rightarrow> Inl ValueError | v # vs \<Rightarrow> Inr (fold max vs v))"

definition np_min :: "real list \<Rightarrow> py_error + real" where
  "np_min xs = (case xs of [] \<Rightarrow> Inl ValueError | v # vs \<Rightarrow> Inr (fold min vs v))"

text \<open>
  \<^verbatim>\<open>np.array([a, b, c]).max()\<close> on three float32 results: the largest, and not finite as
  soon as one of them is not (each is a difference \<open>max - min\<close>, so only \<open>+inf\<close> can occur).
\<close>

definition np_max3 :: "real option \<Rightarrow> real option \<Rightarrow> real option \<Rightarrow> real option" where
  "np_max3 a b c =
     (case a of None \<Rightarrow> None
      | Some u \<Rightarrow>
          (case b of None \<Rightarrow> None
           | Some v \<Rightarrow> (case c of None \<Rightarrow> None | Some w \<Rightarrow> Some (max (max u v) w))))"

text \<open>
  \<^verbatim>\<open>ax.set_xlim(lo, hi)\<close> (and \<^verbatim>\<open>set_ylim\<close>, \<^verbatim>\<open>set_zlim\<close>): matplotlib raises ValueError for a
  limit that is NaN or infinite, and otherwise takes the pair. The result is the pair
  that was passed. (For \<open>lo = hi\<close> matplotlib warns and widens the interval by a margin of
  its own, so only for \<open>lo < hi\<close> is the pair also the interval the axis shows; the
  statement about the box below is about samples whose largest span is positive.)
\<close>

definition set_lim :: "real option \<Rightarrow> real option \<Rightarrow> py_error + real \<times> real" where
  "set_lim lo hi =
     (case lo of None \<Rightarrow> Inl ValueError
      | Some l \<Rightarrow> (case hi of None \<Rightarrow> Inl ValueError | Some h \<Rightarrow> Inr (l, h)))"

text \<open>
  \<^verbatim>\<open>ax.scatter(x, y, z, c=colours)\<close> with a list of colour names: matplotlib raises ValueError
  unless the list is empty, holds one colour, or holds one colour per point.
\<close>

definition scatter :: "'p list \<Rightarrow> string list \<Rightarrow> py_error option" where
  "scatter points c =
     (if length c = 0 \<or> length c = 1 \<or> length c = length points then None
      else Some ValueError)"

text \<open>
  \<^verbatim>\<open>t.argmax(dim=1)\<close> on one row: the index of the first maximal value. The scan keeps the
  best index and value seen so far and replaces them only by a strictly larger value.
  A row without entries (a class dimension of size 0) raises IndexError.
\<close>

fun argmax_scan :: "nat \<Rightarrow> real \<Rightarrow> nat \<Rightarrow> real list \<Rightarrow> nat" where
  "argmax_scan best_i best_v i [] = best_i"
| "argmax_scan best_i best_v i (v # vs) =
     (if best_v < v then argmax_scan i v (Suc i) vs
      else argmax_scan best_i best_v (Suc i) vs)"

definition argmax :: "real list \<Rightarrow> py_error + nat" where
  "argmax row = (case row of [] \<Rightarrow> Inl IndexError | v # vs \<Rightarrow> Inr (argmax_scan 0 v 1 vs))"

text \<open>
  \<^verbatim>\<open>a == b\<close> on one-dimensional numpy arrays: elementwise on equal lengths, an array of
  length 1 is broadcast against the other, any other pair of lengths raises ValueError.
\<close>

definition np_equal :: "int list \<Rightarrow> int list \<Rightarrow> py_error + bool list" where
  "np_equal a b =
     (if length a = length b then Inr (map (\<lambda>(u, v). u = v) (zip a b))
      else if length a = 1 then Inr (map (\<lambda>v. hd a = v) b)
      else if length b = 1 then Inr (map (\<lambda>u. u = hd b) a)
      else Inl ValueError)"

text \<open>\<^verbatim>\<open>a == i\<close> with a scalar \<open>i\<close>: the scalar is compared with every entry.\<close>

definition np_equal_scalar :: "int list \<Rightarrow> int \<Rightarrow> bool list" where
  "np_equal_scalar a i = map (\<lambda>v. v = i) a"

text \<open>\<^verbatim>\<open>np.sum\<close> of a boolean array counts the entries that are True.\<close>

definition np_sum_bool :: "bool list \<Rightarrow> nat" where
  "np_sum_bool bs = length (filter (\<lambda>b. b) bs)"

text \<open>
  \<^verbatim>\<open>np.mean\<close> of a boolean array: the count of True entries divided by the size.
  On an empty array numpy returns nan (with a warning, no exception): \<open>None\<close> here.
\<close>

definition np_mean_bool :: "bool list \<Rightarrow> real option" where
  "np_mean_bool bs =
     (if bs = [] then None else Some (real (np_sum_bool bs) / real (length bs)))"

text \<open>
  The builtin \<^verbatim>\<open>max\<close> on a list: ValueError on the empty list, otherwise the first of the
  maximal items. Strings compare lexicographically, character by character, a proper
  prefix being smaller: the order of \<^typ>\<open>string\<close> used here.
\<close>

definition py_max :: "'a::linorder list \<Rightarrow> py_error + 'a" where
  "py_max xs =
     (case xs of [] \<Rightarrow> Inl ValueError
      | v # vs \<Rightarrow> Inr (fold (\<lambda>item best. if best < item then item else best) vs v))"

text \<open>
  \<^verbatim>\<open>os.path.join\<close> (POSIX) with two components; with three the library folds from the left.
\<close>

definition path_join :: "string \<Rightarrow> string \<Rightarrow> string" where
  "path_join a b =
     (if b \<noteq> [] \<and> hd b = CHR ''/'' then b
      else if a = [] \<or> last a = CHR ''/'' then a @ b
      else a @ ''/'' @ b)"

text \<open>The truth value of \<^verbatim>\<open>save_path\<close>: \<^verbatim>\<open>None\<close> and the empty string are false.\<close>

definition truthy :: "string option \<Rightarrow> bool" where
  "truthy p = (case p of None \<Rightarrow> False | Some s \<Rightarrow> s \<noteq> [])"

section \<open>The data the routines work on\<close>

text \<open>
  A sample as the dataset collaborator delivers it (a batch of size 1): \<^verbatim>\<open>data.x\<close> holds one
  row of three coordinates per point, \<^verbatim>\<open>data.y\<close> one integer label per point, and the
  metadata the form type and form number at index 0 of their batch lists.
\<close>

record sample =
  data_x :: "(real \<times> real \<times> real) list"
  data_y :: "int list"
  form_type :: string
  form_number :: string

definition colors :: "string list" where
  "colors = [''blue'', ''green'', ''yellow'', ''orange'', ''red'']"

definition class_names :: "string list" where
  "class_names = [''No attention'', ''Low'', ''Medium-low'', ''Medium-high'', ''High'']"

text \<open>
  What the outside world can observe of a run, in the order it happens: the calls into
  the collaborators (recorded when they are made, whether or not they raise), among
  them \<^verbatim>\<open>plt.savefig\<close> with its path, dpi and \<^verbatim>\<open>bbox_inches\<close> and \<^verbatim>\<open>plt.show\<close>, and every
  \<^verbatim>\<open>print\<close> with the values it formats.
\<close>

datatype event =
    Load_config string
  | Construct_model nat real
  | Listdir string
  | Print_loading string
  | Torch_load string
  | Load_state_dict
  | Construct_dataset string string
  | Get_dataloaders "nat list" nat
  | Forward
  | Savefig string nat string
  | Show
  | Print_header
  | Print_class nat string
  | Print_ground_truth nat
  | Print_predicted nat

record limits =
  xlim :: "real \<times> real"
  ylim :: "real \<times> real"
  zlim :: "real \<times> real"

text \<open>
  \<^verbatim>\<open>visualize_prediction\<close> returns nothing. The record holds what it has put into the
  figure when it reaches \<^verbatim>\<open>plt.show()\<close>: the colour lists of the two scatter plots, the
  axis limits it has set on the two subplots, the accuracy formatted into the title, and
  the predicted classes they were computed from.
\<close>

record plot =
  pred_classes :: "nat list"
  gt_colors :: "string list"
  pred_colors :: "string list"
  ax1_limits :: limits
  ax2_limits :: limits
  title_accuracy :: "real option"

section \<open>The inference+plot routine \<^verbatim>\<open>visualize_prediction\<close>\<close>

text \<open>
  Lines 14 to 18. The network is a parameter (\<open>model\<close> maps the sample to a tensor of
  logits with one row per point and one column per class, or raises), and so is
  \<^verbatim>\<open>torch.softmax\<close> on one row: \<open>dim=1\<close> of the \<open>N \<times> C\<close> tensor is the class dimension, so the
  call maps the row function over the rows, and \<^verbatim>\<open>argmax(dim=1)\<close> reduces each row.
  The tensor is the list of its rows. The \<open>device\<close> argument only says where the tensors
  live and is left out.
\<close>

definition infer ::
  "(real list \<Rightarrow> real list) \<Rightarrow> (sample \<Rightarrow> py_error + real list list) \<Rightarrow> sample
     \<Rightarrow> py_error + nat list" where
  "infer softmax model data =
     (case model data of
        Inl e \<Rightarrow> Inl e
      | Inr outputs \<Rightarrow>
          (let predictions = map softmax outputs
           in map_result argmax predictions))"

text \<open>Lines 33 and 47: \<^verbatim>\<open>[colors[int(c)] for c in labels]\<close>.\<close>

definition color_of :: "int \<Rightarrow> py_error + string" where
  "color_of c = py_index colors c"

definition color_array :: "int list \<Rightarrow> py_error + string list" where
  "color_array labels = map_result color_of labels"

text \<open>
  Lines 59 to 71, the body of the loop over the two subplots: the limits one subplot gets
  from the coordinate columns of \<^verbatim>\<open>points\<close>. The columns are float32 arrays and numpy keeps
  float32 when a float32 scalar meets the Python floats \<open>2.0\<close> and \<open>0.5\<close>, so every
  operation is a float32 operation. The reductions only compare.
\<close>

definition axis_limits :: "(real \<times> real \<times> real) list \<Rightarrow> py_error + limits" where
  "axis_limits points =
     (let xs = map (\<lambda>p. fst p) points;
          ys = map (\<lambda>p. fst (snd p)) points;
          zs = map (\<lambda>p. snd (snd p)) points
      in case np_max xs of Inl e \<Rightarrow> Inl e | Inr x_max \<Rightarrow>
         (case np_min xs of Inl e \<Rightarrow> Inl e | Inr x_min \<Rightarrow>
         (case np_max ys of Inl e \<Rightarrow> Inl e | Inr y_max \<Rightarrow>
         (case np_min ys of Inl e \<Rightarrow> Inl e | Inr y_min \<Rightarrow>
         (case np_max zs of Inl e \<Rightarrow> Inl e | Inr z_max \<Rightarrow>
         (case np_min zs of Inl e \<Rightarrow> Inl e | Inr z_min \<Rightarrow>
           (let max_range =
                  f32_op (\<lambda>a b. a / b)
                    (np_max3 (f32_op (\<lambda>a b. a - b) (Some x_max) (Some x_min))
                             (f32_op (\<lambda>a b. a - b) (Some y_max) (Some y_min))
                             (f32_op (\<lambda>a b. a - b) (Some z_max) (Some z_min)))
                    (Some 2);
                mid_x = f32_op (\<lambda>a b. a * b)
                          (f32_op (\<lambda>a b. a + b) (Some x_max) (Some x_min)) (Some (1 / 2));
                mid_y = f32_op (\<lambda>a b. a * b)
                          (f32_op (\<lambda>a b. a + b) (Some y_max) (Some y_min)) (Some (1 / 2));
                mid_z = f32_op (\<lambda>a b. a * b)
                          (f32_op (\<lambda>a b. a + b) (Some z_max) (Some z_min)) (Some (1 / 2))
            in case set_lim (f32_op (\<lambda>a b. a - b) mid_x max_range)
                            (f32_op (\<lambda>a b. a + b) mid_x max_range) of
                 Inl e \<Rightarrow> Inl e
               | Inr lx \<Rightarrow>
                   (case set_lim (f32_op (\<lambda>a b. a - b) mid_y max_range)
                                 (f32_op (\<lambda>a b. a + b) mid_y max_range) of
                      Inl e \<Rightarrow> Inl e
                    | Inr ly \<Rightarrow>
                        (case set_lim (f32_op (\<lambda>a b. a - b) mid_z max_range)
                                      (f32_op (\<lambda>a b. a + b) mid_z max_range) of
                           Inl e \<Rightarrow> Inl e
                         | Inr lz \<Rightarrow> Inr \<lparr>xlim = lx, ylim = ly, zlim = lz\<rparr>)))))))))"

text \<open>Line 74: \<^verbatim>\<open>np.mean(pred_classes == ground_truth)\<close>.\<close>

definition accuracy :: "int list \<Rightarrow> int list \<Rightarrow> py_error + real option" where
  "accuracy pred ground_truth =
     (case np_equal pred ground_truth of
        Inl e \<Rightarrow> Inl e
      | Inr matches \<Rightarrow> Inr (np_mean_bool matches))"

text \<open>
  Lines 20 to 77, everything that goes into the figure, in source order: the colour list
  and the scatter plot of the ground truth, those of the prediction, the limits of \<open>ax1\<close>
  and then of \<open>ax2\<close> (the loop body runs once for each), the accuracy. Titles, legend,
  axis labels and the camera angles are constants of the figure that no statement
  below depends on; they are left out.
\<close>

definition render :: "sample \<Rightarrow> nat list \<Rightarrow> py_error + plot" where
  "render data pred =
     (let points = data_x data; ground_truth = data_y data
      in case color_array ground_truth of Inl e \<Rightarrow> Inl e | Inr c1 \<Rightarrow>
         (case scatter points c1 of Some e \<Rightarrow> Inl e | None \<Rightarrow>
         (case color_array (map int pred) of Inl e \<Rightarrow> Inl e | Inr c2 \<Rightarrow>
         (case scatter points c2 of Some e \<Rightarrow> Inl e | None \<Rightarrow>
         (case axis_limits points of Inl e \<Rightarrow> Inl e | Inr l1 \<Rightarrow>
         (case axis_limits points of Inl e \<Rightarrow> Inl e | Inr l2 \<Rightarrow>
         (case accuracy (map int pred) ground_truth of Inl e \<Rightarrow> Inl e | Inr acc \<Rightarrow>
            Inr \<lparr>pred_classes = pred, gt_colors = c1, pred_colors = c2,
                 ax1_limits = l1, ax2_limits = l2, title_accuracy = acc\<rparr>)))))))"

text \<open>
  Lines 85 to 89: the header, then for each \<open>i\<close> in \<^verbatim>\<open>range(5)\<close> the class line and the two
  counts \<^verbatim>\<open>np.sum(ground_truth == i)\<close> and \<^verbatim>\<open>np.sum(pred_classes == i)\<close>.
\<close>

definition report_class :: "int list \<Rightarrow> int list \<Rightarrow> nat \<Rightarrow> event list" where
  "report_class ground_truth pred i =
     [Print_class i (class_names ! i),
      Print_ground_truth (np_sum_bool (np_equal_scalar ground_truth (int i))),
      Print_predicted (np_sum_bool (np_equal_scalar pred (int i)))]"

definition report :: "int list \<Rightarrow> int list \<Rightarrow> event list" where
  "report ground_truth pred =
     Print_header # concat (map (report_class ground_truth pred) [0..<5])"

text \<open>
  The whole routine. \<open>savefig\<close> stands for the file system: it answers \<open>None\<close> when the
  file can be written and the exception otherwise. The result is the trace of events
  up to the return or the exception, and the figure or the exception itself. The test
  \<^verbatim>\<open>if save_path:\<close> is Python's truth test.
\<close>

definition visualize_prediction ::
  "(real list \<Rightarrow> real list) \<Rightarrow> (sample \<Rightarrow> py_error + real list list)
     \<Rightarrow> (string \<Rightarrow> py_error option) \<Rightarrow> sample \<Rightarrow> string option
     \<Rightarrow> event list \<times> (py_error + plot)" where
  "visualize_prediction softmax model savefig data save_path =
     (case infer softmax model data of
        Inl e \<Rightarrow> ([Forward], Inl e)
      | Inr pred \<Rightarrow>
          (case render data pred of
             Inl e \<Rightarrow> ([Forward], Inl e)
           | Inr fig \<Rightarrow>
               (if truthy save_path then
                  (case savefig (the save_path) of
                     Some e \<Rightarrow> ([Forward, Savefig (the save_path) 300 ''tight''], Inl e)
                   | None \<Rightarrow>
                       ([Forward, Savefig (the save_path) 300 ''tight'', Show]
                          @ report (data_y data) (map int pred), Inr fig))
                else ([Forward, Show] @ report (data_y data) (map int pred), Inr fig))))"

section \<open>The driver \<^verbatim>\<open>main\<close>\<close>

record config =
  model_k :: nat
  model_dropout :: real
  checkpoint_dir :: string
  data_path :: string

text \<open>
  The collaborators of the driver. \<open>load_config\<close> answers with the four values the driver
  reads from the configuration. \<open>'w\<close> is the type of a checkpoint, which \<open>torch_load\<close> answers
  with; \<open>load_state_dict w\<close> stands for line 113, the lookup of \<^verbatim>\<open>'model_state_dict'\<close> in the
  checkpoint and the restoring of the parameters, and answers \<open>None\<close> or the exception.
  Constructing the network from the configured \<open>k\<close> and \<open>dropout\<close> (line 99) is taken to
  succeed. \<open>dgcnn k dropout w\<close> is the forward pass of the network built with \<open>k\<close> and
  \<open>dropout\<close> after \<^verbatim>\<open>load_state_dict(w)\<close>; \<open>test_loader path demographic ids batch_size\<close> is the
  list of batches the test loader yields.
\<close>

record 'w env =
  load_config :: "string \<Rightarrow> py_error + config"
  listdir :: "string \<Rightarrow> py_error + string list"
  isdir :: "string \<Rightarrow> bool"
  torch_load :: "string \<Rightarrow> py_error + 'w"
  load_state_dict :: "'w \<Rightarrow> py_error option"
  dgcnn :: "nat \<Rightarrow> real \<Rightarrow> 'w \<Rightarrow> sample \<Rightarrow> py_error + real list list"
  test_loader :: "string \<Rightarrow> string \<Rightarrow> nat list \<Rightarrow> nat \<Rightarrow> py_error + sample list"
  torch_softmax :: "real list \<Rightarrow> real list"
  plt_savefig :: "string \<Rightarrow> py_error option"

text \<open>Lines 104 to 106: the emptiness check and the choice of the latest directory.\<close>

definition select_latest :: "string list \<Rightarrow> py_error + string" where
  "select_latest timestamp_dirs =
     (if timestamp_dirs = [] then Inl FileNotFoundError else py_max timestamp_dirs)"

text \<open>Lines 129 to 138: one call of the routine per batch; an exception ends the loop.\<close>

fun visualize_all ::
  "(real list \<Rightarrow> real list) \<Rightarrow> (sample \<Rightarrow> py_error + real list list)
     \<Rightarrow> (string \<Rightarrow> py_error option) \<Rightarrow> sample list \<Rightarrow> event list \<times> py_error option" where
  "visualize_all softmax model savefig [] = ([], None)"
| "visualize_all softmax model savefig (batch # batches) =
     (let save_path = ''visualization_'' @ form_type batch @ ''_model_''
                        @ form_number batch @ ''.png''
      in case visualize_prediction softmax model savefig batch (Some save_path) of
           (evs, Inl e) \<Rightarrow> (evs, Some e)
         | (evs, Inr fig) \<Rightarrow>
             (case visualize_all softmax model savefig batches of
                (evs', r) \<Rightarrow> (evs @ evs', r)))"

definition main :: "'w env \<Rightarrow> event list \<times> py_error option" where
  "main env =
     (case load_config env ''configs/config.yaml'' of
        Inl e \<Rightarrow> ([Load_config ''configs/config.yaml''], Some e)
      | Inr cfg \<Rightarrow>
          (let dir = checkpoint_dir cfg;
               evs1 = [Load_config ''configs/config.yaml'',
                       Construct_model (model_k cfg) (model_dropout cfg),
                       Listdir dir]
           in case listdir env dir of
                Inl e \<Rightarrow> (evs1, Some e)
              | Inr names \<Rightarrow>
                  (let timestamp_dirs = filter (\<lambda>d. isdir env (path_join dir d)) names
                   in case select_latest timestamp_dirs of
                        Inl e \<Rightarrow> (evs1, Some e)
                      | Inr latest_dir \<Rightarrow>
                          (let checkpoint_path =
                                 path_join (path_join dir latest_dir) ''best_model.pt'';
                               evs2 = evs1 @ [Print_loading checkpoint_path,
                                              Torch_load checkpoint_path]
                           in case torch_load env checkpoint_path of
                                Inl e \<Rightarrow> (evs2, Some e)
                              | Inr w \<Rightarrow>
                                  (case load_state_dict env w of
                                     Some e \<Rightarrow> (evs2 @ [Load_state_dict], Some e)
                                   | None \<Rightarrow>
                                  (let evs3 = evs2 @ [Load_state_dict,
                                            Construct_dataset (data_path cfg) ''novice'',
                                            Get_dataloaders [1, 15] 1]
                                   in case test_loader env (data_path cfg) ''novice'' [1, 15] 1 of
                                        Inl e \<Rightarrow> (evs3, Some e)
                                      | Inr batches \<Rightarrow>
                                          (case visualize_all (torch_softmax env)
                                                  (dgcnn env (model_k cfg) (model_dropout cfg) w)
                                                  (plt_savefig env) batches of
                                             (evs4, r) \<Rightarrow> (evs3 @ evs4, r))))))))"

section \<open>Notions used to state the properties\<close>

text \<open>
  The index \<open>k\<close> is the argmax of the row \<open>p\<close> as torch documents it: an entry of \<open>p\<close>, no
  entry is larger, and every earlier entry is strictly smaller.
\<close>

definition is_first_argmax :: "real list \<Rightarrow> nat \<Rightarrow> bool" where
  "is_first_argmax p k \<longleftrightarrow>
     k < length p \<and> (\<forall>j<length p. p ! j \<le> p ! k) \<and> (\<forall>j<k. p ! j < p ! k)"

text \<open>The number of points whose predicted class is the ground-truth class.\<close>

definition matches :: "nat list \<Rightarrow> int list \<Rightarrow> nat" where
  "matches pred ground_truth =
     card {i. i < length ground_truth \<and> int (pred ! i) = ground_truth ! i}"

text \<open>
  The three coordinate columns of a point array, the span of a column (largest minus
  smallest entry) and its midpoint (the mean of the smallest and the largest entry).
\<close>

definition col_x :: "(real \<times> real \<times> real) list \<Rightarrow> real list" where
  "col_x points = map (\<lambda>p. fst p) points"

definition col_y :: "(real \<times> real \<times> real) list \<Rightarrow> real list" where
  "col_y points = map (\<lambda>p. fst (snd p)) points"

definition col_z :: "(real \<times> real \<times> real) list \<Rightarrow> real list" where
  "col_z points = map (\<lambda>p. snd (snd p)) points"

definition span :: "real list \<Rightarrow> real" where
  "span cs = Max (set cs) - Min (set cs)"

definition midpoint :: "real list \<Rightarrow> real" where
  "midpoint cs = (Min (set cs) + Max (set cs)) / 2"

text \<open>
  The exact values of the results of the float32 operations of lines 59 to 71, when none
  of them is rounded: the three spans, the half-width, the three sums \<open>max + min\<close>, the
  three midpoints and the six limits.
\<close>

definition box_values :: "(real \<times> real \<times> real) list \<Rightarrow> real list" where
  "box_values points =
     (let cx = col_x points; cy = col_y points; cz = col_z points;
          r = Max {span cx, span cy, span cz} / 2
      in [span cx, span cy, span cz, r,
          Max (set cx) + Min (set cx), Max (set cy) + Min (set cy), Max (set cz) + Min (set cz),
          midpoint cx, midpoint cy, midpoint cz,
          midpoint cx - r, midpoint cx + r, midpoint cy - r, midpoint cy + r,
          midpoint cz - r, midpoint cz + r])"

text \<open>
  The numbers on the \<^verbatim>\<open>Ground Truth:\<close> lines and on the \<^verbatim>\<open>Predicted:\<close> lines of a trace, in
  the order they were printed.
\<close>

fun ground_truth_counts :: "event list \<Rightarrow> nat list" where
  "ground_truth_counts [] = []"
| "ground_truth_counts (Print_ground_truth n # evs) = n # ground_truth_counts evs"
| "ground_truth_counts (e # evs) = ground_truth_counts evs"

fun predicted_counts :: "event list \<Rightarrow> nat list" where
  "predicted_counts [] = []"
| "predicted_counts (Print_predicted n # evs) = n # predicted_counts evs"
| "predicted_counts (e # evs) = predicted_counts evs"

text \<open>The events only the driver itself produces, none of them by the routine.\<close>

definition driver_event :: "event \<Rightarrow> bool" where
  "driver_event e =
     (case e of
        Load_config p \<Rightarrow> True | Construct_model k d \<Rightarrow> True | Listdir p \<Rightarrow> True
      | Print_loading p \<Rightarrow> True | Torch_load p \<Rightarrow> True | Load_state_dict \<Rightarrow> True
      | Construct_dataset p d \<Rightarrow> True | Get_dataloaders ids b \<Rightarrow> True | _ \<Rightarrow> False)"

section \<open>Example inputs\<close>

text \<open>
  The softmax of a row in exact arithmetic, one instance of the \<open>softmax\<close> parameter.
  torch computes it in float32, so its values are roundings of these.
\<close>

definition softmax_exact :: "real list \<Rightarrow> real list" where
  "softmax_exact row = map (\<lambda>v. exp v / sum_list (map exp row)) row"

text \<open>
  The softmax of a row evaluated in float32, another instance of the parameter: the
  largest logit is subtracted, the exponentials are summed from the left and each is
  divided by the sum, every operation rounded to the nearest float32. A kernel may sum in
  another order, multiply by the reciprocal of the sum, or use an exponential that is not
  correctly rounded; on the rows of \<open>tie_model\<close> below the three exponentials are 1 and
  their sum is 3 either way, so the three probabilities are equal.
\<close>

definition softmax_f32 :: "real list \<Rightarrow> real list" where
  "softmax_f32 row =
     (case row of [] \<Rightarrow> []
      | v # vs \<Rightarrow>
          (let m = fold max vs v;
               es = map (\<lambda>x. f32_near (exp (f32_near (x - m)))) row;
               s = fold (\<lambda>e acc. f32_near (acc + e)) es 0
           in map (\<lambda>e. f32_near (e / s)) es))"

text \<open>
  A network that answers every point with the one-hot logits of that point's label
  (all logits 0 for a label outside \<open>0..4\<close>), and a file system where every write succeeds.
\<close>

definition one_hot :: "int \<Rightarrow> real list" where
  "one_hot c = map (\<lambda>j. if int j = c then 1 else 0) [0..<5]"

definition oracle_model :: "sample \<Rightarrow> py_error + real list list" where
  "oracle_model data = Inr (map one_hot (data_y data))"

definition savefig_ok :: "string \<Rightarrow> py_error option" where
  "savefig_ok path = None"

text \<open>
  A network that answers every point with class 0, and one whose two rows of logits have
  their largest entry, \<open>1 / 2 ^ 40\<close>, at index 1 and at index 2.
\<close>

definition constant_model :: "sample \<Rightarrow> py_error + real list list" where
  "constant_model data = Inr (map (\<lambda>c. one_hot 0) (data_y data))"

definition tie_model :: "sample \<Rightarrow> py_error + real list list" where
  "tie_model data = Inr [[0, 1 / 2 ^ 40, 0], [0, 0, 1 / 2 ^ 40]]"

text \<open>
  Five points with one label of each class, coordinates ranging over \<open>[0,2]\<close>, \<open>[0,4]\<close> and
  \<open>[0,1]\<close>; a sample without points; a sample whose first label is \<open>-1\<close>.
\<close>

definition example_sample :: sample where
  "example_sample =
     \<lparr>data_x = [(0, 0, 0), (2, 4, 1), (1, 2, 1 / 2), (1, 1, 1), (1 / 2, 3, 0)],
      data_y = [0, 1, 2, 3, 4], form_type = ''curved'', form_number = ''1''\<rparr>"

definition empty_sample :: sample where
  "empty_sample = \<lparr>data_x = [], data_y = [], form_type = ''curved'', form_number = ''1''\<rparr>"

definition wrapped_sample :: sample where
  "wrapped_sample =
     \<lparr>data_x = [(0, 0, 0), (1, 1, 1)], data_y = [- 1, 0], form_type = ''curved'',
      form_number = ''15''\<rparr>"

text \<open>
  Three points with the labels 0, 0 and 3; two float32 points whose x coordinates are 1
  and \<open>1 / 2 ^ 24\<close>; two float32 points whose x coordinates are \<open>2 ^ 127\<close> and \<open>- 2 ^ 127\<close>.
\<close>

definition skewed_sample :: sample where
  "skewed_sample =
     \<lparr>data_x = [(0, 0, 0), (2, 4, 1), (1, 2, 1 / 2)], data_y = [0, 0, 3],
      form_type = ''curved'', form_number = ''1''\<rparr>"

definition rounding_sample :: sample where
  "rounding_sample =
     \<lparr>data_x = [(1, 0, 0), (1 / 2 ^ 24, 0, 0)], data_y = [0, 1],
      form_type = ''curved'', form_number = ''1''\<rparr>"

definition overflow_sample :: sample where
  "overflow_sample =
     \<lparr>data_x = [(2 ^ 127, 0, 0), (- (2 ^ 127), 0, 0)], data_y = [0, 1],
      form_type = ''curved'', form_number = ''1''\<rparr>"

text \<open>What the routine puts into the figure and prints for \<open>example_sample\<close>.\<close>

definition example_plot :: plot where
  "example_plot =
     \<lparr>pred_classes = [0, 1, 2, 3, 4],
      gt_colors = [''blue'', ''green'', ''yellow'', ''orange'', ''red''],
      pred_colors = [''blue'', ''green'', ''yellow'', ''orange'', ''red''],
      ax1_limits = \<lparr>xlim = (- 1, 3), ylim = (0, 4), zlim = (- 3 / 2, 5 / 2)\<rparr>,
      ax2_limits = \<lparr>xlim = (- 1, 3), ylim = (0, 4), zlim = (- 3 / 2, 5 / 2)\<rparr>,
      title_accuracy = Some 1\<rparr>"

definition example_report :: "event list" where
  "example_report =
     [Print_header,
      Print_class 0 ''No attention'', Print_ground_truth 1, Print_predicted 1,
      Print_class 1 ''Low'', Print_ground_truth 1, Print_predicted 1,
      Print_class 2 ''Medium-low'', Print_ground_truth 1, Print_predicted 1,
      Print_class 3 ''Medium-high'', Print_ground_truth 1, Print_predicted 1,
      Print_class 4 ''High'', Print_ground_truth 1, Print_predicted 1]"

text \<open>
  A driver environment: the configuration, a checkpoint root whose listing is \<open>names\<close>
  and in which only \<^verbatim>\<open>notes.txt\<close> is not a directory, a checkpoint in every directory, the
  network above, and a test loader that yields \<open>example_sample\<close>.
\<close>

definition example_config :: config where
  "example_config =
     \<lparr>model_k = 20, model_dropout = 1 / 2, checkpoint_dir = ''checkpoints'', data_path = ''data''\<rparr>"

definition example_env :: "string list \<Rightarrow> nat env" where
  "example_env names =
     \<lparr>load_config = (\<lambda>path. Inr example_config),
      listdir = (\<lambda>dir. Inr names),
      isdir = (\<lambda>path. path \<noteq> ''checkpoints/notes.txt''),
      torch_load = (\<lambda>path. Inr 0),
      load_state_dict = (\<lambda>w. None),
      dgcnn = (\<lambda>k dropout w. oracle_model),
      test_loader = (\<lambda>path demographic ids batch_size. Inr [example_sample]),
      torch_softmax = softmax_exact,
      plt_savefig = savefig_ok\<rparr>"

section \<open>Facts about the primitives\<close>

text \<open>
  A comprehension succeeds exactly when its body succeeds on every element, and then
  has one result per element.
\<close>

lemma map_result_list_all2:
  "map_result f as = Inr bs \<longleftrightarrow> list_all2 (\<lambda>a b. f a = Inr b) as bs"
proof (induction as arbitrary: bs)
  case Nil
  show ?case by auto
next
  case (Cons a as)
  show ?case
    by (cases bs) (auto simp: Cons.IH [symmetric] split: sum.splits)
qed

lemma map_result_total:
  "(\<forall>a\<in>set as. \<exists>b. f a = Inr b) \<Longrightarrow> \<exists>bs. map_result f as = Inr bs"
  by (induction as) (auto split: sum.splits)

lemma map_result_length: "map_result f as = Inr bs \<Longrightarrow> length bs = length as"
  by (simp add: map_result_list_all2 list_all2_lengthD)

lemma map_result_nth:
  "map_result f as = Inr bs \<Longrightarrow> i < length as \<Longrightarrow> f (as ! i) = Inr (bs ! i)"
  by (auto simp: map_result_list_all2 dest: list_all2_nthD)

lemma map_result_cong:
  "(\<And>a. a \<in> set as \<Longrightarrow> f a = g a) \<Longrightarrow> map_result f as = map_result g as"
  by (induction as) (simp_all split: sum.splits)

lemma map_result_map: "map_result f (map h as) = map_result (\<lambda>a. f (h a)) as"
  by (induction as) (simp_all split: sum.splits)

text \<open>
  The scan returns the first maximal index. The invariant: \<open>pre\<close> is the part of the row
  already seen, \<open>best_v\<close> its first maximal entry and \<open>best_i\<close> the index of that entry.
\<close>

lemma argmax_scan_first:
  assumes "length pre = i" and "best_i < i" and "pre ! best_i = best_v"
    and "\<forall>j<i. pre ! j \<le> best_v" and "\<forall>j<best_i. pre ! j < best_v"
  shows "is_first_argmax (pre @ vs) (argmax_scan best_i best_v i vs)"
  using assms
proof (induction vs arbitrary: pre i best_i best_v)
  case Nil
  then show ?case by (simp add: is_first_argmax_def)
next
  case (Cons v vs)
  let ?pre = "pre @ [v]"
  have len: "length ?pre = Suc i" using Cons.prems(1) by simp
  show ?case
  proof (cases "best_v < v")
    case True
    have "is_first_argmax (?pre @ vs) (argmax_scan i v (Suc i) vs)"
    proof (rule Cons.IH [OF len])
      show "i < Suc i" by simp
      show "?pre ! i = v" using Cons.prems(1) by (simp add: nth_append)
      show "\<forall>j<Suc i. ?pre ! j \<le> v"
        using Cons.prems(1,4) True by (auto simp: nth_append less_Suc_eq intro: order_trans less_imp_le)
      show "\<forall>j<i. ?pre ! j < v"
        using Cons.prems(1,4) True by (auto simp: nth_append intro: le_less_trans)
    qed
    with True show ?thesis by simp
  next
    case False
    have "is_first_argmax (?pre @ vs) (argmax_scan best_i best_v (Suc i) vs)"
    proof (rule Cons.IH [OF len])
      show "best_i < Suc i" using Cons.prems(2) by simp
      show "?pre ! best_i = best_v" using Cons.prems(1,2,3) by (simp add: nth_append)
      show "\<forall>j<Suc i. ?pre ! j \<le> best_v"
        using Cons.prems(1,4) False by (auto simp: nth_append less_Suc_eq)
      show "\<forall>j<best_i. ?pre ! j < best_v"
        using Cons.prems(1,2,5) by (auto simp: nth_append)
    qed
    with False show ?thesis by simp
  qed
qed

lemma argmax_first:
  assumes "row \<noteq> []"
  shows "\<exists>k. argmax row = Inr k \<and> is_first_argmax row k"
proof -
  from assms obtain v vs where row: "row = v # vs" by (cases row) auto
  have "is_first_argmax ([v] @ vs) (argmax_scan 0 v 1 vs)"
    by (rule argmax_scan_first) auto
  then show ?thesis by (simp add: row argmax_def)
qed

lemma is_first_argmax_unique:
  "is_first_argmax p k \<Longrightarrow> is_first_argmax p k' \<Longrightarrow> k = k'"
  unfolding is_first_argmax_def
  by (metis linorder_neqE_nat not_le)

lemma argmax_less_length: "argmax row = Inr k \<Longrightarrow> k < length row"
proof -
  assume a: "argmax row = Inr k"
  then have "row \<noteq> []" by (auto simp: argmax_def)
  from argmax_first [OF this] a show ?thesis by (auto simp: is_first_argmax_def)
qed

lemma argmax_tie: "argmax [a, a, a] = Inr 0"
  by (simp add: argmax_def)

text \<open>
  A strictly increasing function applied to every entry leaves the scan's answer
  unchanged. Exact softmax divides \<open>exp v\<close> by one positive sum, so it is such a function.
  More generally the first maximal index is the same for two rows of one length whose
  entries are ordered alike.
\<close>

lemma argmax_scan_map:
  assumes "\<And>a b. f a < f b \<longleftrightarrow> a < b"
  shows "argmax_scan best_i (f best_v) i (map f vs) = argmax_scan best_i best_v i vs"
  by (induction vs arbitrary: best_i best_v i) (simp_all add: assms)

lemma argmax_map:
  assumes "\<And>a b. f a < f b \<longleftrightarrow> a < (b::real)"
  shows "argmax (map f row) = argmax row"
  by (cases row) (simp_all add: argmax_def argmax_scan_map [of f, OF assms])

lemma argmax_softmax_exact: "argmax (softmax_exact row) = argmax row"
proof (cases "row = []")
  case True
  then show ?thesis by (simp add: softmax_exact_def)
next
  case False
  then obtain v vs where row: "row = v # vs" by (cases row) auto
  have "0 < sum_list (map exp row)"
    unfolding row by (auto intro!: add_pos_nonneg sum_list_nonneg)
  then have "\<And>a b. exp a / sum_list (map exp row) < exp b / sum_list (map exp row) \<longleftrightarrow> a < b"
    by (simp add: divide_less_cancel)
  then show ?thesis
    unfolding softmax_exact_def by (rule argmax_map)
qed

lemma argmax_order_preserving:
  assumes "length q = length p"
    and "\<forall>i<length p. \<forall>j<length p. q ! i < q ! j \<longleftrightarrow> p ! i < p ! j"
  shows "argmax q = argmax p"
proof (cases "p = []")
  case True
  with assms(1) show ?thesis by simp
next
  case False
  then have "q \<noteq> []" using assms(1) by auto
  from argmax_first [OF False] obtain k where k: "argmax p = Inr k" "is_first_argmax p k"
    by blast
  from argmax_first [OF \<open>q \<noteq> []\<close>] obtain k' where k': "argmax q = Inr k'" "is_first_argmax q k'"
    by blast
  have kl: "k < length p" using k(2) by (simp add: is_first_argmax_def)
  have "is_first_argmax q k"
    unfolding is_first_argmax_def
  proof (intro conjI allI impI)
    show "k < length q" using kl assms(1) by simp
  next
    fix j assume "j < length q"
    then have j: "j < length p" using assms(1) by simp
    have "p ! j \<le> p ! k" using k(2) j by (simp add: is_first_argmax_def)
    then have "\<not> p ! k < p ! j" by simp
    then have "\<not> q ! k < q ! j" using assms(2) kl j by simp
    then show "q ! j \<le> q ! k" by simp
  next
    fix j assume "j < k"
    then have "p ! j < p ! k" and "j < length p" using k(2) kl by (simp_all add: is_first_argmax_def)
    then show "q ! j < q ! k" using assms(2) kl by simp
  qed
  from is_first_argmax_unique [OF this k'(2)] k(1) k'(1) show ?thesis by simp
qed

lemma softmax_exact_order:
  "length (softmax_exact row) = length row
   \<and> (\<forall>i<length row. \<forall>j<length row.
         softmax_exact row ! i < softmax_exact row ! j \<longleftrightarrow> row ! i < row ! j)"
proof (cases "row = []")
  case True
  then show ?thesis by (simp add: softmax_exact_def)
next
  case False
  then obtain v vs where row: "row = v # vs" by (cases row) auto
  have "0 < sum_list (map exp row)"
    unfolding row by (auto intro!: add_pos_nonneg sum_list_nonneg)
  then show ?thesis
    by (simp add: softmax_exact_def divide_less_cancel)
qed

text \<open>
  Rounding to float32. A number with at most 24 significant bits and no bit below
  \<open>1 / 2 ^ 149\<close> is a float32 and is not rounded. Just below 1 the float32 numbers are
  \<open>1 / 2 ^ 24\<close> apart, so everything above \<open>1 - 1 / 2 ^ 25\<close> rounds to 1, and so does the
  midpoint \<open>1 - 1 / 2 ^ 25\<close> itself, 1 having the even mantissa; just above 1 they are
  \<open>1 / 2 ^ 23\<close> apart and the midpoint \<open>1 + 1 / 2 ^ 24\<close> rounds to 1 as well. \<open>2 ^ 128\<close> is
  beyond the largest float32.
\<close>

lemma rne_of_int [simp]: "rne (of_int k) = k"
  by (simp add: rne_def)

lemma rne_near:
  assumes "of_int k - 1 / 2 < y" and "y < of_int k + 1 / 2"
  shows "rne y = k"
proof -
  have "\<lfloor>y\<rfloor> = k \<or> \<lfloor>y\<rfloor> = k - 1" using assms by linarith
  then show ?thesis
  proof
    assume f: "\<lfloor>y\<rfloor> = k"
    then have "y - of_int k < 1 / 2" using assms by linarith
    with f show ?thesis by (simp add: rne_def)
  next
    assume f: "\<lfloor>y\<rfloor> = k - 1"
    then have "1 / 2 < y - of_int (k - 1)" using assms by simp
    with f show ?thesis by (simp add: rne_def Let_def)
  qed
qed

lemma rne_tie: "rne (of_int k + 1 / 2) = (if even k then k else k + 1)"
proof -
  have "\<lfloor>of_int k + (1 / 2 :: real)\<rfloor> = k" by linarith
  then show ?thesis by (simp add: rne_def Let_def)
qed

lemma bitlen_eqI:
  assumes "2 ^ n \<le> x" and "x < 2 ^ Suc n"
  shows "bitlen x = int n + 1"
proof -
  have "bitlen x \<le> int n + 1"
    using assms(2) by (simp add: bitlen_le_iff_power nat_add_distrib)
  moreover have "int n + 1 \<le> bitlen x"
    using assms(1) by (simp add: bitlen_ge_iff_power nat_add_distrib)
  ultimately show ?thesis by simp
qed

lemma f32_near_exact:
  assumes "x = of_int k / 2 ^ d" and "d \<le> 149" and "\<bar>k\<bar> < 2 ^ 24"
  shows "f32_near x = x"
proof (cases "k = 0")
  case True
  with assms(1) show ?thesis by (simp add: f32_near_def)
next
  case False
  define j where "j = 149 - d"
  define N where "N = \<bar>k\<bar> * 2 ^ j"
  have d: "d + j = 149" using assms(2) by (simp add: j_def)
  have "\<bar>x\<bar> * 2 ^ 149 = of_int \<bar>k\<bar> / 2 ^ d * 2 ^ (d + j)"
    by (simp add: assms(1) d abs_divide)
  also have "\<dots> = of_int \<bar>k\<bar> * 2 ^ j" by (simp add: power_add)
  finally have n: "\<bar>x\<bar> * 2 ^ 149 = of_int N" by (simp add: N_def)
  have kpos: "0 < \<bar>k\<bar>" using False by simp
  have bl: "bitlen N = bitlen \<bar>k\<bar> + int j"
    unfolding N_def by (rule bitlen_pow2 [OF kpos])
  have "bitlen \<bar>k\<bar> \<le> 24" using assms(3) by (simp add: bitlen_le_iff_power)
  then have sh: "nat (bitlen N - 24) \<le> j" by (simp add: bl)
  define s where "s = nat (bitlen N - 24)"
  obtain t where t: "j = s + t" using sh by (auto simp: s_def le_iff_add)
  have "real_of_int N / 2 ^ s = of_int (\<bar>k\<bar> * 2 ^ t)"
    by (simp add: N_def t power_add)
  then have "rne (real_of_int N / 2 ^ s) * 2 ^ s = N"
    by (simp only: rne_of_int) (simp add: N_def t power_add)
  moreover have "f32_near x = sgn x * of_int (rne (real_of_int N / 2 ^ s) * 2 ^ s) / 2 ^ 149"
    unfolding f32_near_def Let_def n floor_of_int s_def ..
  ultimately have "f32_near x = sgn x * of_int N / 2 ^ 149" by simp
  also have "\<dots> = sgn x * \<bar>x\<bar>" by (simp add: n [symmetric])
  also have "\<dots> = x" by (simp add: sgn_mult_abs)
  finally show ?thesis .
qed

lemma f32_round_exact:
  assumes "x = of_int k / 2 ^ d" and "d \<le> 149" and "\<bar>k\<bar> < 2 ^ 24"
  shows "f32_round x = Some x"
proof -
  have "\<bar>x\<bar> \<le> \<bar>of_int k\<bar>"
    unfolding assms(1) abs_divide by (simp add: divide_le_eq_1 mult_le_cancel_left1 field_simps)
  also have "\<dots> < 2 ^ 24" using assms(3) by (simp flip: of_int_abs add: of_int_less_iff [of _ "2 ^ 24", simplified])
  also have "\<dots> \<le> (2::real) ^ 128" by simp
  finally have "\<bar>x\<bar> < 2 ^ 128" .
  then show ?thesis
    by (simp add: f32_round_def f32_near_exact [OF assms])
qed

lemma f32_near_below_one:
  assumes "1 - 1 / 2 ^ 25 < x" and "x < 1"
  shows "f32_near x = 1"
proof -
  define n where "n = \<bar>x\<bar> * 2 ^ 149"
  have "(0::real) < 1 - 1 / 2 ^ 25" by simp
  with assms(1) have xpos: "0 < x" by linarith
  have n: "n = x * 2 ^ 149" using xpos by (simp add: n_def)
  have lo: "2 ^ 149 - 2 ^ 124 < n"
  proof -
    have "(1 - 1 / 2 ^ 25) * 2 ^ 149 < x * 2 ^ 149" using assms(1) by simp
    then show ?thesis by (simp add: n)
  qed
  have hi: "n < 2 ^ 149" using assms(2) by (simp add: n)
  have "(2::real) ^ 148 \<le> 2 ^ 149 - 2 ^ 124" by simp
  with lo have "2 ^ 148 \<le> \<lfloor>n\<rfloor>" by (simp add: le_floor_iff)
  moreover have "\<lfloor>n\<rfloor> < 2 ^ Suc 148" using hi by (simp add: floor_less_iff)
  ultimately have bl: "bitlen \<lfloor>n\<rfloor> = 149" using bitlen_eqI [of 148 "\<lfloor>n\<rfloor>"] by simp
  have "rne (n / 2 ^ 125) = 2 ^ 24"
  proof (rule rne_near)
    show "real_of_int (2 ^ 24) - 1 / 2 < n / 2 ^ 125" using lo by (simp add: field_simps)
    show "n / 2 ^ 125 < real_of_int (2 ^ 24) + 1 / 2" using hi by (simp add: field_simps)
  qed
  moreover have sh: "nat (bitlen \<lfloor>n\<rfloor> - 24) = 125" by (simp add: bl)
  have "f32_near x = sgn x * of_int (rne (n / 2 ^ 125) * 2 ^ 125) / 2 ^ 149"
    unfolding f32_near_def Let_def n_def [symmetric] sh ..
  ultimately show ?thesis using xpos by simp
qed

lemma f32_near_tie_above_one: "f32_near (1 + 1 / 2 ^ 24) = 1"
proof -
  have n: "\<bar>1 + 1 / 2 ^ 24 :: real\<bar> * 2 ^ 149 = of_int (2 ^ 149 + 2 ^ 125)" by simp
  have bl: "bitlen (2 ^ 149 + 2 ^ 125) = 150"
    using bitlen_twopow_add_eq [of "2 ^ 125" 149] by simp
  have "real_of_int (2 ^ 149 + 2 ^ 125) / 2 ^ 126 = of_int (2 ^ 23) + 1 / 2" by simp
  then have "rne (real_of_int (2 ^ 149 + 2 ^ 125) / 2 ^ 126) = 2 ^ 23"
    by (simp only: rne_tie) simp
  then show ?thesis
    unfolding f32_near_def n Let_def floor_of_int bl by simp
qed

lemma f32_near_tie_below_one: "f32_near (1 - 1 / 2 ^ 25) = 1"
proof -
  have n: "\<bar>1 - 1 / 2 ^ 25 :: real\<bar> * 2 ^ 149 = of_int (2 ^ 149 - 2 ^ 124)" by simp
  have bl: "bitlen (2 ^ 149 - 2 ^ 124) = 149"
    using bitlen_eqI [of 148 "2 ^ 149 - 2 ^ 124"] by simp
  have "real_of_int (2 ^ 149 - 2 ^ 124) / 2 ^ 125 = of_int (2 ^ 24 - 1) + 1 / 2" by simp
  then have "rne (real_of_int (2 ^ 149 - 2 ^ 124) / 2 ^ 125) = 2 ^ 24"
    by (simp only: rne_tie) simp
  then show ?thesis
    unfolding f32_near_def n Let_def floor_of_int bl by simp
qed

lemma f32_round_overflow: "f32_round (2 ^ 128) = None"
proof -
  have "f32_near (2 ^ 128) = 2 ^ 128"
  proof -
    have n: "\<bar>2 ^ 128 :: real\<bar> * 2 ^ 149 = of_int (1 * 2 ^ 277)" by simp
    have bl: "bitlen (1 * 2 ^ 277) = 278" by (subst bitlen_pow2) (simp_all add: bitlen_eqI [of 0 1, simplified])
    have "real_of_int (1 * 2 ^ 277) / 2 ^ 254 = of_int (2 ^ 23)" by simp
    then have "rne (real_of_int (1 * 2 ^ 277) / 2 ^ 254) = 2 ^ 23" by (simp only: rne_of_int)
    then show ?thesis
      unfolding f32_near_def n Let_def floor_of_int bl by simp
  qed
  then show ?thesis by (simp add: f32_round_def)
qed

lemma f32_near_small:
  "f32_near 0 = 0" "f32_near 1 = 1" "f32_near 2 = 2" "f32_near 3 = 3"
  using f32_near_exact [of 0 0 0] f32_near_exact [of 1 1 0] f32_near_exact [of 2 2 0]
    f32_near_exact [of 3 3 0]
  by simp_all

lemma f32_round_small:
  "f32_round 0 = Some 0" "f32_round 1 = Some 1" "f32_round 2 = Some 2" "f32_round 3 = Some 3"
  "f32_round 4 = Some 4" "f32_round (- 1) = Some (- 1)" "f32_round (1 / 2) = Some (1 / 2)"
  "f32_round (5 / 2) = Some (5 / 2)" "f32_round (- (3 / 2)) = Some (- (3 / 2))"
  using f32_round_exact [of 0 0 0] f32_round_exact [of 1 1 0] f32_round_exact [of 2 2 0]
    f32_round_exact [of 3 3 0] f32_round_exact [of 4 4 0] f32_round_exact [of "- 1" "- 1" 0]
    f32_round_exact [of "1 / 2" 1 1] f32_round_exact [of "5 / 2" 5 1]
    f32_round_exact [of "- (3 / 2)" "- 3" 1]
  by simp_all

lemma f32_round_tie_above_one: "f32_round (1 + 1 / 2 ^ 24) = Some 1"
  unfolding f32_round_def f32_near_tie_above_one by simp

lemma f32_round_tie_below_one: "f32_round (1 - 1 / 2 ^ 25) = Some 1"
  unfolding f32_round_def f32_near_tie_below_one by simp

lemma f32_op_None [simp]: "f32_op f None v = None" "f32_op f u None = None"
  by (simp_all add: f32_op_def split: option.splits)

lemma f32_near_exp_tiny:
  assumes "0 < t" and "t < 1 / 2 ^ 25"
  shows "f32_near (exp (- t)) = 1"
proof (rule f32_near_below_one)
  have "1 - 1 / 2 ^ 25 < 1 + - t" using assms(2) by simp
  also have "\<dots> \<le> exp (- t)" by (rule exp_ge_add_one_self)
  finally show "1 - 1 / 2 ^ 25 < exp (- t)" .
  show "exp (- t) < 1" using assms(1) by simp
qed

text \<open>
  The float32 softmax of a row whose largest logit exceeds the others by less than
  \<open>1 / 2 ^ 25\<close>: every exponential rounds to 1, so the three probabilities are equal.
\<close>

lemma softmax_f32_tie:
  assumes "0 < t" and "t < 1 / 2 ^ 25" and "f32_near (- t) = - t"
  shows "softmax_f32 [0, t, 0] = [f32_near (1 / 3), f32_near (1 / 3), f32_near (1 / 3)]"
    and "softmax_f32 [0, 0, t] = [f32_near (1 / 3), f32_near (1 / 3), f32_near (1 / 3)]"
proof -
  have m: "max t 0 = t" "max 0 t = t" using assms(1) by simp_all
  note e = f32_near_exp_tiny [OF assms(1,2)]
  show "softmax_f32 [0, t, 0] = [f32_near (1 / 3), f32_near (1 / 3), f32_near (1 / 3)]"
    by (simp add: softmax_f32_def Let_def m assms(3) e f32_near_small)
  show "softmax_f32 [0, 0, t] = [f32_near (1 / 3), f32_near (1 / 3), f32_near (1 / 3)]"
    by (simp add: softmax_f32_def Let_def m assms(3) e f32_near_small)
qed

text \<open>
  The reductions compute the largest and the smallest entry.
\<close>

lemma np_max_Max: "xs \<noteq> [] \<Longrightarrow> np_max xs = Inr (Max (set xs))"
  by (cases xs) (simp_all add: np_max_def Max.set_eq_fold [symmetric])

lemma np_min_Min: "xs \<noteq> [] \<Longrightarrow> np_min xs = Inr (Min (set xs))"
  by (cases xs) (simp_all add: np_min_def Min.set_eq_fold [symmetric])

lemma py_max_Max:
  fixes xs :: "'a::linorder list"
  assumes "xs \<noteq> []"
  shows "py_max xs = Inr (Max (set xs))"
proof -
  from assms obtain v vs where xs: "xs = v # vs" by (cases xs) auto
  have "(\<lambda>item best. if best < item then item else best) = (max :: 'a \<Rightarrow> 'a \<Rightarrow> 'a)"
    by (auto simp: fun_eq_iff max_def)
  then show ?thesis
    by (simp add: xs py_max_def Max.set_eq_fold [symmetric])
qed

text \<open>
  The limits: ValueError without points; the exact cube when none of the sixteen
  float32 results is rounded; and in particular for the ranges \<open>[0,2]\<close>, \<open>[0,4]\<close>, \<open>[0,1]\<close>.
\<close>

lemma axis_limits_empty: "axis_limits [] = Inl ValueError"
  by (simp add: axis_limits_def np_max_def)

lemma axis_limits_exact:
  assumes "points \<noteq> []"
    and "\<forall>v\<in>set (box_values points). f32_round v = Some v"
    and "r = Max {span (col_x points), span (col_y points), span (col_z points)} / 2"
  shows "axis_limits points =
     Inr \<lparr>xlim = (midpoint (col_x points) - r, midpoint (col_x points) + r),
          ylim = (midpoint (col_y points) - r, midpoint (col_y points) + r),
          zlim = (midpoint (col_z points) - r, midpoint (col_z points) + r)\<rparr>"
proof -
  let ?cx = "col_x points" and ?cy = "col_y points" and ?cz = "col_z points"
  have ne: "map (\<lambda>p. fst p) points \<noteq> []" "map (\<lambda>p. fst (snd p)) points \<noteq> []"
    "map (\<lambda>p. snd (snd p)) points \<noteq> []"
    using assms(1) by simp_all
  have ex: "f32_round v = Some v" if "v \<in> set (box_values points)" for v
    using assms(2) that by blast
  have mem: "span ?cx \<in> set (box_values points)" "span ?cy \<in> set (box_values points)"
    "span ?cz \<in> set (box_values points)" "r \<in> set (box_values points)"
    "Max (set ?cx) + Min (set ?cx) \<in> set (box_values points)"
    "Max (set ?cy) + Min (set ?cy) \<in> set (box_values points)"
    "Max (set ?cz) + Min (set ?cz) \<in> set (box_values points)"
    "midpoint ?cx \<in> set (box_values points)" "midpoint ?cy \<in> set (box_values points)"
    "midpoint ?cz \<in> set (box_values points)"
    "midpoint ?cx - r \<in> set (box_values points)" "midpoint ?cx + r \<in> set (box_values points)"
    "midpoint ?cy - r \<in> set (box_values points)" "midpoint ?cy + r \<in> set (box_values points)"
    "midpoint ?cz - r \<in> set (box_values points)" "midpoint ?cz + r \<in> set (box_values points)"
    by (simp_all add: box_values_def Let_def assms(3))
  have sx: "f32_op (\<lambda>a b. a - b) (Some (Max (set ?cx))) (Some (Min (set ?cx))) = Some (span ?cx)"
    and sy: "f32_op (\<lambda>a b. a - b) (Some (Max (set ?cy))) (Some (Min (set ?cy))) = Some (span ?cy)"
    and sz: "f32_op (\<lambda>a b. a - b) (Some (Max (set ?cz))) (Some (Min (set ?cz))) = Some (span ?cz)"
    using ex [OF mem(1)] ex [OF mem(2)] ex [OF mem(3)]
    by (simp_all add: f32_op_def span_def)
  have mx: "np_max3 (Some (span ?cx)) (Some (span ?cy)) (Some (span ?cz)) = Some (2 * r)"
    by (simp add: np_max3_def assms(3) max.commute max.left_commute)
  have r: "f32_op (\<lambda>a b. a / b) (Some (2 * r)) (Some 2) = Some r"
    using ex [OF mem(4)] by (simp add: f32_op_def)
  have ax: "f32_op (\<lambda>a b. a + b) (Some (Max (set ?cx))) (Some (Min (set ?cx)))
              = Some (Max (set ?cx) + Min (set ?cx))"
    and ay: "f32_op (\<lambda>a b. a + b) (Some (Max (set ?cy))) (Some (Min (set ?cy)))
              = Some (Max (set ?cy) + Min (set ?cy))"
    and az: "f32_op (\<lambda>a b. a + b) (Some (Max (set ?cz))) (Some (Min (set ?cz)))
              = Some (Max (set ?cz) + Min (set ?cz))"
    using ex [OF mem(5)] ex [OF mem(6)] ex [OF mem(7)] by (simp_all add: f32_op_def)
  have mid: "f32_op (\<lambda>a b. a * b) (Some (Max (set c) + Min (set c))) (Some (1 / 2))
               = Some (midpoint c)" if "midpoint c \<in> set (box_values points)" for c
    using ex [OF that] by (simp add: f32_op_def midpoint_def add.commute)
  have lo: "f32_op (\<lambda>a b. a - b) (Some (midpoint c)) (Some r) = Some (midpoint c - r)"
    if "midpoint c - r \<in> set (box_values points)" for c
    using ex [OF that] by (simp add: f32_op_def)
  have hi: "f32_op (\<lambda>a b. a + b) (Some (midpoint c)) (Some r) = Some (midpoint c + r)"
    if "midpoint c + r \<in> set (box_values points)" for c
    using ex [OF that] by (simp add: f32_op_def)
  have nx: "np_max ?cx = Inr (Max (set ?cx))" "np_min ?cx = Inr (Min (set ?cx))"
    and ny: "np_max ?cy = Inr (Max (set ?cy))" "np_min ?cy = Inr (Min (set ?cy))"
    and nz: "np_max ?cz = Inr (Max (set ?cz))" "np_min ?cz = Inr (Min (set ?cz))"
    using np_max_Max [OF ne(1)] np_min_Min [OF ne(1)] np_max_Max [OF ne(2)]
      np_min_Min [OF ne(2)] np_max_Max [OF ne(3)] np_min_Min [OF ne(3)]
    by (simp_all add: col_x_def col_y_def col_z_def)
  have "axis_limits points =
     (case set_lim (Some (midpoint ?cx - r)) (Some (midpoint ?cx + r)) of
        Inl e \<Rightarrow> Inl e
      | Inr lx \<Rightarrow>
          (case set_lim (Some (midpoint ?cy - r)) (Some (midpoint ?cy + r)) of
             Inl e \<Rightarrow> Inl e
           | Inr ly \<Rightarrow>
               (case set_lim (Some (midpoint ?cz - r)) (Some (midpoint ?cz + r)) of
                  Inl e \<Rightarrow> Inl e
                | Inr lz \<Rightarrow> Inr \<lparr>xlim = lx, ylim = ly, zlim = lz\<rparr>)))"
    unfolding axis_limits_def Let_def
      col_x_def [symmetric] col_y_def [symmetric] col_z_def [symmetric]
    unfolding nx ny nz sum.case
    unfolding sx sy sz mx
    unfolding r ax ay az
    unfolding mid [OF mem(8)] mid [OF mem(9)] mid [OF mem(10)]
    unfolding lo [OF mem(11)] hi [OF mem(12)] lo [OF mem(13)] hi [OF mem(14)]
      lo [OF mem(15)] hi [OF mem(16)]
    ..
  then show ?thesis
    by (simp add: set_lim_def)
qed

lemma axis_limits_ranges:
  assumes "points \<noteq> []"
    and "Min (set (col_x points)) = 0" and "Max (set (col_x points)) = 2"
    and "Min (set (col_y points)) = 0" and "Max (set (col_y points)) = 4"
    and "Min (set (col_z points)) = 0" and "Max (set (col_z points)) = 1"
  shows "axis_limits points
     = Inr \<lparr>xlim = (- 1, 3), ylim = (0, 4), zlim = (- 3 / 2, 5 / 2)\<rparr>"
proof -
  have bv: "box_values points = [2, 4, 1, 2, 2, 4, 1, 1, 2, 1 / 2, - 1, 3, 0, 4, - (3 / 2), 5 / 2]"
    using assms(2-) by (simp add: box_values_def span_def midpoint_def Let_def)
  have ex: "\<forall>v\<in>set (box_values points). f32_round v = Some v"
    unfolding bv by (simp add: f32_round_small)
  have vals: "midpoint (col_x points) = 1" "midpoint (col_y points) = 2"
    "midpoint (col_z points) = 1 / 2"
    "Max {span (col_x points), span (col_y points), span (col_z points)} / 2 = 2"
    using assms(2-) by (simp_all add: span_def midpoint_def)
  show ?thesis
    unfolding axis_limits_exact [OF assms(1) ex refl] vals by simp
qed

text \<open>
  Counting: the mean of the comparison array, and the five class counts.
\<close>

lemma np_sum_bool_zip:
  "length a = length b \<Longrightarrow>
   np_sum_bool (map (\<lambda>(u, v). u = v) (zip a b)) = card {i. i < length b \<and> a ! i = b ! i}"
  by (simp add: np_sum_bool_def length_filter_conv_card cong: conj_cong)

lemma accuracy_equal_length:
  assumes "length pred = length ground_truth" and "ground_truth \<noteq> []"
  shows "accuracy (map int pred) ground_truth =
           Inr (Some (real (matches pred ground_truth) / real (length ground_truth)))"
proof -
  have "np_sum_bool (map (\<lambda>(u, v). u = v) (zip (map int pred) ground_truth))
          = card {i. i < length ground_truth \<and> map int pred ! i = ground_truth ! i}"
    using assms(1) by (intro np_sum_bool_zip) simp
  also have "\<dots> = matches pred ground_truth"
    unfolding matches_def using assms(1)
    by (intro arg_cong [where f = card]) auto
  finally have count: "np_sum_bool (map (\<lambda>(u, v). u = v) (zip (map int pred) ground_truth))
      = matches pred ground_truth" .
  from assms have "pred \<noteq> []" by auto
  with assms count show ?thesis
    by (simp add: accuracy_def np_equal_def np_mean_bool_def)
qed

lemma matches_le: "matches pred ground_truth \<le> length ground_truth"
proof -
  have "card {i. i < length ground_truth \<and> int (pred ! i) = ground_truth ! i}
          \<le> card {..<length ground_truth}"
    by (intro card_mono) auto
  then show ?thesis by (simp add: matches_def)
qed

lemma upt_5: "[0..<5] = [0, 1, 2, 3, 4]"
  by (simp add: upt_rec)

lemma class_counts_sum:
  assumes "\<forall>c\<in>set labels. 0 \<le> c \<and> c \<le> 4"
  shows "(\<Sum>i\<leftarrow>[0..<5]. np_sum_bool (np_equal_scalar labels (int i))) = length labels"
  using assms
proof (induction labels)
  case Nil
  show ?case by (simp add: np_sum_bool_def np_equal_scalar_def upt_5)
next
  case (Cons c labels)
  then have IH: "(\<Sum>i\<leftarrow>[0..<5]. np_sum_bool (np_equal_scalar labels (int i))) = length labels"
    by simp
  from Cons.prems have "c = 0 \<or> c = 1 \<or> c = 2 \<or> c = 3 \<or> c = 4" by auto
  then show ?case
    using IH by (auto simp: np_sum_bool_def np_equal_scalar_def upt_5)
qed

lemma np_sum_bool_count:
  "np_sum_bool (np_equal_scalar labels i) = length (filter (\<lambda>c. c = i) labels)"
  by (simp add: np_sum_bool_def np_equal_scalar_def filter_map comp_def)

lemma ground_truth_counts_report:
  "ground_truth_counts (report gt pred)
     = map (\<lambda>i. np_sum_bool (np_equal_scalar gt (int i))) [0..<5]"
  by (simp add: report_def report_class_def upt_5)

lemma predicted_counts_report:
  "predicted_counts (report gt pred)
     = map (\<lambda>i. np_sum_bool (np_equal_scalar pred (int i))) [0..<5]"
  by (simp add: report_def report_class_def upt_5)

lemma counts_prefix:
  "ground_truth_counts (Forward # Show # evs) = ground_truth_counts evs"
  "ground_truth_counts (Forward # Savefig p d b # Show # evs) = ground_truth_counts evs"
  "predicted_counts (Forward # Show # evs) = predicted_counts evs"
  "predicted_counts (Forward # Savefig p d b # Show # evs) = predicted_counts evs"
  by simp_all

text \<open>
  The colour lookup: defined exactly on \<open>-5..4\<close>, direct on \<open>0..4\<close>, counted from the end
  below 0.
\<close>

lemma color_of_in_range:
  "0 \<le> c \<Longrightarrow> c \<le> 4 \<Longrightarrow> color_of c = Inr (colors ! nat c)"
  by (simp add: color_of_def py_index_def colors_def)

lemma color_of_negative:
  "- 5 \<le> c \<Longrightarrow> c \<le> - 1 \<Longrightarrow> color_of c = Inr (colors ! nat (c + 5))"
  by (simp add: color_of_def py_index_def colors_def)

lemma color_of_Inr_iff: "(\<exists>s. color_of c = Inr s) \<longleftrightarrow> - 5 \<le> c \<and> c \<le> 4"
  by (auto simp: color_of_def py_index_def colors_def Let_def)

lemma color_of_in_colors: "color_of c = Inr s \<Longrightarrow> s \<in> set colors"
  by (auto simp: color_of_def py_index_def Let_def split: if_splits)

lemma color_array_total:
  "\<forall>c\<in>set labels. - 5 \<le> c \<and> c \<le> 4 \<Longrightarrow> \<exists>cs. color_array labels = Inr cs"
  unfolding color_array_def
  by (rule map_result_total) (simp add: color_of_Inr_iff)

lemma color_array_in_colors:
  assumes "color_array labels = Inr cs"
  shows "set cs \<subseteq> set colors"
proof
  fix s assume "s \<in> set cs"
  then obtain i where i: "i < length cs" "cs ! i = s" by (auto simp: in_set_conv_nth)
  from assms have len: "length cs = length labels"
    by (simp add: color_array_def map_result_length)
  from assms i len have "color_of (labels ! i) = Inr s"
    by (auto simp: color_array_def dest: map_result_nth)
  then show "s \<in> set colors" by (rule color_of_in_colors)
qed

lemma color_array_length: "color_array labels = Inr cs \<Longrightarrow> length cs = length labels"
  by (simp add: color_array_def map_result_length)

section \<open>Facts about the routine and the driver\<close>

text \<open>
  What a run that returns, and a run that raises, has done.
\<close>

lemma infer_total:
  assumes "model data = Inr outputs" and "\<forall>row\<in>set outputs. softmax row \<noteq> []"
  shows "\<exists>pred. infer softmax model data = Inr pred"
proof -
  have "\<forall>p\<in>set (map softmax outputs). \<exists>k. argmax p = Inr k"
    using assms(2) argmax_first by fastforce
  then show ?thesis
    using assms(1) by (simp add: infer_def map_result_total)
qed

lemma infer_Inr:
  assumes "infer softmax model data = Inr pred" and "model data = Inr outputs"
  shows "length pred = length outputs"
    and "i < length outputs \<Longrightarrow> argmax (softmax (outputs ! i)) = Inr (pred ! i)"
  using assms map_result_length [of argmax "map softmax outputs" pred]
    map_result_nth [of argmax "map softmax outputs" pred i]
  by (simp_all add: infer_def)

lemma render_Inr:
  assumes "render data pred = Inr fig"
  shows "pred_classes fig = pred"
    and "color_array (data_y data) = Inr (gt_colors fig)"
    and "color_array (map int pred) = Inr (pred_colors fig)"
    and "axis_limits (data_x data) = Inr (ax1_limits fig)"
    and "ax2_limits fig = ax1_limits fig"
    and "accuracy (map int pred) (data_y data) = Inr (title_accuracy fig)"
    and "scatter (data_x data) (gt_colors fig) = None"
    and "scatter (data_x data) (pred_colors fig) = None"
  using assms by (auto simp: render_def Let_def split: sum.splits option.splits)

lemma visualize_prediction_Inr:
  assumes "visualize_prediction softmax model savefig data save_path = (evs, Inr fig)"
  shows "infer softmax model data = Inr (pred_classes fig)"
    and "render data (pred_classes fig) = Inr fig"
    and "evs = (if truthy save_path then [Forward, Savefig (the save_path) 300 ''tight'', Show]
                else [Forward, Show])
               @ report (data_y data) (map int (pred_classes fig))"
    and "truthy save_path \<Longrightarrow> savefig (the save_path) = None"
  using assms
  by (auto simp: visualize_prediction_def split: sum.splits if_splits option.splits
      dest: render_Inr(1))

lemma visualize_prediction_Inl:
  assumes "visualize_prediction softmax model savefig data save_path = (evs, Inl e)"
  shows "evs = [Forward] \<or> truthy save_path \<and> evs = [Forward, Savefig (the save_path) 300 ''tight'']"
  using assms
  by (auto simp: visualize_prediction_def split: sum.splits if_splits option.splits)

text \<open>
  The routine returns on every input that keeps the collaborators' contract: the network
  answers with one row per point and one to five classes, there is a label in \<open>-5..4\<close> for
  every point, the limits computed from the coordinates are finite, and the file can be
  written.
\<close>

lemma render_total:
  assumes "axis_limits (data_x data) = Inr box"
    and "length (data_y data) = length (data_x data)"
    and "length pred = length (data_x data)"
    and "\<forall>c\<in>set (data_y data). - 5 \<le> c \<and> c \<le> 4" and "\<forall>c\<in>set pred. c \<le> 4"
  shows "\<exists>fig. render data pred = Inr fig"
proof -
  from assms(4) obtain c1 where c1: "color_array (data_y data) = Inr c1"
    using color_array_total by blast
  have "\<forall>c\<in>set (map int pred). - 5 \<le> c \<and> c \<le> 4" using assms(5) by auto
  then obtain c2 where c2: "color_array (map int pred) = Inr c2"
    using color_array_total by blast
  have s1: "scatter (data_x data) c1 = None"
    using color_array_length [OF c1] assms(2) by (simp add: scatter_def)
  have s2: "scatter (data_x data) c2 = None"
    using color_array_length [OF c2] assms(3) by (simp add: scatter_def)
  have "\<exists>a. accuracy (map int pred) (data_y data) = Inr a"
    using assms(2,3) by (simp add: accuracy_def np_equal_def)
  then obtain a where a: "accuracy (map int pred) (data_y data) = Inr a" ..
  show ?thesis by (simp add: render_def c1 c2 s1 s2 assms(1) a)
qed

lemma visualize_prediction_total:
  assumes "model data = Inr outputs"
    and "\<forall>row\<in>set outputs. softmax row \<noteq> [] \<and> length (softmax row) \<le> 5"
    and "length outputs = length (data_x data)"
    and "length (data_y data) = length (data_x data)"
    and "axis_limits (data_x data) = Inr box"
    and "\<forall>c\<in>set (data_y data). - 5 \<le> c \<and> c \<le> 4"
    and "truthy save_path \<longrightarrow> savefig (the save_path) = None"
  shows "\<exists>evs fig. visualize_prediction softmax model savefig data save_path = (evs, Inr fig)"
proof -
  from assms(1,2) obtain pred where pred: "infer softmax model data = Inr pred"
    using infer_total by blast
  have len: "length pred = length outputs" using infer_Inr(1) [OF pred assms(1)] .
  have "\<forall>c\<in>set pred. c \<le> 4"
  proof
    fix c assume "c \<in> set pred"
    then obtain i where i: "i < length pred" "pred ! i = c" by (auto simp: in_set_conv_nth)
    then have "argmax (softmax (outputs ! i)) = Inr c"
      using infer_Inr(2) [OF pred assms(1)] len by auto
    then have "c < length (softmax (outputs ! i))" by (rule argmax_less_length)
    moreover have "length (softmax (outputs ! i)) \<le> 5" using assms(2) i len by simp
    ultimately show "c \<le> 4" by simp
  qed
  then obtain fig where fig: "render data pred = Inr fig"
    using render_total [of data box pred] assms(3,4,5,6) len by auto
  show ?thesis
    using assms(7) by (auto simp: visualize_prediction_def pred fig)
qed

text \<open>
  The routine produces none of the driver's events.
\<close>

lemma report_no_driver_event: "e \<in> set (report gt pred) \<Longrightarrow> \<not> driver_event e"
  by (auto simp: report_def report_class_def upt_5 driver_event_def)

lemma visualize_prediction_no_driver_event:
  assumes "visualize_prediction softmax model savefig data save_path = (evs, res)"
    and "e \<in> set evs"
  shows "\<not> driver_event e"
proof (cases res)
  case (Inl err)
  from visualize_prediction_Inl [OF assms(1) [unfolded Inl]] assms(2) show ?thesis
    by (auto simp: driver_event_def)
next
  case (Inr fig)
  from visualize_prediction_Inr(3) [OF assms(1) [unfolded Inr]] assms(2)
  show ?thesis
    by (auto simp: driver_event_def dest: report_no_driver_event split: if_splits)
qed

lemma visualize_all_no_driver_event:
  "visualize_all softmax model savefig batches = (evs, r) \<Longrightarrow> e \<in> set evs \<Longrightarrow> \<not> driver_event e"
proof (induction batches arbitrary: evs r)
  case Nil
  then show ?case by simp
next
  case (Cons batch batches)
  let ?path = "''visualization_'' @ form_type batch @ ''_model_'' @ form_number batch @ ''.png''"
  obtain evs1 res where v: "visualize_prediction softmax model savefig batch (Some ?path) = (evs1, res)"
    by (cases "visualize_prediction softmax model savefig batch (Some ?path)")
  show ?case
  proof (cases res)
    case (Inl err)
    with Cons.prems v have "evs = evs1" by (simp add: Let_def)
    with Cons.prems(2) visualize_prediction_no_driver_event [OF v] show ?thesis by simp
  next
    case (Inr fig)
    obtain evs2 r2 where a: "visualize_all softmax model savefig batches = (evs2, r2)"
      by (cases "visualize_all softmax model savefig batches")
    with Cons.prems(1) v Inr have "evs = evs1 @ evs2" by (simp add: Let_def)
    with Cons.prems(2) visualize_prediction_no_driver_event [OF v] Cons.IH [OF a]
    show ?thesis by auto
  qed
qed

lemma select_latest_Max:
  "timestamp_dirs \<noteq> [] \<Longrightarrow> select_latest timestamp_dirs = Inr (Max (set timestamp_dirs))"
  by (simp add: select_latest_def py_max_Max)

lemma select_latest_example:
  "select_latest [''2023-01-01'', ''2023-06-01'', ''2022-12-31''] = Inr ''2023-06-01''"
  by (simp add: select_latest_def py_max_def)

section \<open>The example runs\<close>
lemma argmax_one_hot: "argmax (one_hot c) = Inr (if 0 \<le> c \<and> c \<le> 4 then nat c else 0)"
proof -
  consider "c = 0" | "c = 1" | "c = 2" | "c = 3" | "c = 4" | "c < 0" | "4 < c" by linarith
  then show ?thesis
    by cases (simp_all add: one_hot_def upt_5 argmax_def)
qed

lemma argmax_softmax_one_hot:
  "argmax (softmax_exact (one_hot c)) = Inr (if 0 \<le> c \<and> c \<le> 4 then nat c else 0)"
  by (simp only: argmax_softmax_exact argmax_one_hot)

lemma infer_oracle_example:
  "infer softmax_exact oracle_model example_sample = Inr [0, 1, 2, 3, 4]"
  by (simp add: infer_def oracle_model_def example_sample_def argmax_softmax_one_hot)

lemma axis_limits_example:
  "axis_limits (data_x example_sample)
     = Inr \<lparr>xlim = (- 1, 3), ylim = (0, 4), zlim = (- 3 / 2, 5 / 2)\<rparr>"
  by (rule axis_limits_ranges)
    (simp_all add: example_sample_def col_x_def col_y_def col_z_def)

lemma render_example:
  "render example_sample [0, 1, 2, 3, 4] =
     Inr \<lparr>pred_classes = [0, 1, 2, 3, 4],
          gt_colors = [''blue'', ''green'', ''yellow'', ''orange'', ''red''],
          pred_colors = [''blue'', ''green'', ''yellow'', ''orange'', ''red''],
          ax1_limits = \<lparr>xlim = (- 1, 3), ylim = (0, 4), zlim = (- 3 / 2, 5 / 2)\<rparr>,
          ax2_limits = \<lparr>xlim = (- 1, 3), ylim = (0, 4), zlim = (- 3 / 2, 5 / 2)\<rparr>,
          title_accuracy = Some 1\<rparr>"
proof -
  have c: "color_array (data_y example_sample)
             = Inr [''blue'', ''green'', ''yellow'', ''orange'', ''red'']"
    "color_array (map int [0, 1, 2, 3, 4])
             = Inr [''blue'', ''green'', ''yellow'', ''orange'', ''red'']"
    by (simp_all add: example_sample_def color_array_def color_of_def py_index_def colors_def)
  have s: "scatter (data_x example_sample) [''blue'', ''green'', ''yellow'', ''orange'', ''red'']
             = None"
    by (simp add: scatter_def example_sample_def)
  have a: "accuracy (map int [0, 1, 2, 3, 4]) (data_y example_sample) = Inr (Some 1)"
    by (simp add: example_sample_def accuracy_def np_equal_def np_mean_bool_def np_sum_bool_def)
  show ?thesis
    unfolding render_def Let_def c s axis_limits_example a sum.case option.case ..
qed

lemma report_example:
  "report (data_y example_sample) (map int [0, 1, 2, 3, 4]) = example_report"
  by (simp add: report_def report_class_def upt_5 class_names_def np_sum_bool_def
      np_equal_scalar_def example_report_def example_sample_def)

lemma example_run_unsaved:
  "visualize_prediction softmax_exact oracle_model savefig_ok example_sample None
     = (Forward # Show # example_report, Inr example_plot)"
  unfolding visualize_prediction_def infer_oracle_example render_example report_example
    sum.case example_plot_def
  by (simp add: truthy_def)

lemma example_run_saved:
  "visualize_prediction softmax_exact oracle_model savefig_ok example_sample (Some ''out.png'')
     = (Forward # Savefig ''out.png'' 300 ''tight'' # Show # example_report, Inr example_plot)"
  unfolding visualize_prediction_def infer_oracle_example render_example report_example
    sum.case example_plot_def
  by (simp add: truthy_def savefig_ok_def)

lemma example_run_empty_path:
  "visualize_prediction softmax_exact oracle_model savefig_ok example_sample (Some [])
     = (Forward # Show # example_report, Inr example_plot)"
  unfolding visualize_prediction_def infer_oracle_example render_example report_example
    sum.case example_plot_def
  by (simp add: truthy_def)

lemma axis_limits_wrapped:
  "axis_limits (data_x wrapped_sample) = Inr \<lparr>xlim = (0, 1), ylim = (0, 1), zlim = (0, 1)\<rparr>"
proof -
  have ne: "data_x wrapped_sample \<noteq> []" by (simp add: wrapped_sample_def)
  have bv: "box_values (data_x wrapped_sample)
      = [1, 1, 1, 1 / 2, 1, 1, 1, 1 / 2, 1 / 2, 1 / 2, 0, 1, 0, 1, 0, 1]"
    by (simp add: box_values_def wrapped_sample_def col_x_def col_y_def col_z_def span_def
        midpoint_def Let_def)
  have ex: "\<forall>v\<in>set (box_values (data_x wrapped_sample)). f32_round v = Some v"
    unfolding bv by (simp add: f32_round_small)
  have vals: "midpoint (col_x (data_x wrapped_sample)) = 1 / 2"
    "midpoint (col_y (data_x wrapped_sample)) = 1 / 2"
    "midpoint (col_z (data_x wrapped_sample)) = 1 / 2"
    "Max {span (col_x (data_x wrapped_sample)), span (col_y (data_x wrapped_sample)),
          span (col_z (data_x wrapped_sample))} / 2 = 1 / 2"
    by (simp_all add: wrapped_sample_def col_x_def col_y_def col_z_def span_def midpoint_def)
  show ?thesis
    unfolding axis_limits_exact [OF ne ex refl] vals by simp
qed

lemma wrapped_run:
  "visualize_prediction softmax_exact oracle_model savefig_ok wrapped_sample None
     = (Forward # Show # report [- 1, 0] [0, 0],
        Inr \<lparr>pred_classes = [0, 0], gt_colors = [''red'', ''blue''],
             pred_colors = [''blue'', ''blue''],
             ax1_limits = \<lparr>xlim = (0, 1), ylim = (0, 1), zlim = (0, 1)\<rparr>,
             ax2_limits = \<lparr>xlim = (0, 1), ylim = (0, 1), zlim = (0, 1)\<rparr>,
             title_accuracy = Some (1 / 2)\<rparr>)"
proof -
  have i: "infer softmax_exact oracle_model wrapped_sample = Inr [0, 0]"
    by (simp add: infer_def oracle_model_def wrapped_sample_def argmax_softmax_one_hot)
  have c: "color_array (data_y wrapped_sample) = Inr [''red'', ''blue'']"
    "color_array (map int [0, 0]) = Inr [''blue'', ''blue'']"
    by (simp_all add: wrapped_sample_def color_array_def color_of_def py_index_def colors_def)
  have s: "scatter (data_x wrapped_sample) [''red'', ''blue''] = None"
    "scatter (data_x wrapped_sample) [''blue'', ''blue''] = None"
    by (simp_all add: scatter_def wrapped_sample_def)
  have a: "accuracy (map int [0, 0]) (data_y wrapped_sample) = Inr (Some (1 / 2))"
    by (simp add: wrapped_sample_def accuracy_def np_equal_def np_mean_bool_def np_sum_bool_def)
  have r: "render wrapped_sample [0, 0] =
     Inr \<lparr>pred_classes = [0, 0], gt_colors = [''red'', ''blue''],
          pred_colors = [''blue'', ''blue''],
          ax1_limits = \<lparr>xlim = (0, 1), ylim = (0, 1), zlim = (0, 1)\<rparr>,
          ax2_limits = \<lparr>xlim = (0, 1), ylim = (0, 1), zlim = (0, 1)\<rparr>,
          title_accuracy = Some (1 / 2)\<rparr>"
    unfolding render_def Let_def c s axis_limits_wrapped a sum.case option.case ..
  have y: "data_y wrapped_sample = [- 1, 0]" by (simp add: wrapped_sample_def)
  show ?thesis
    unfolding visualize_prediction_def i r y sum.case by (simp add: truthy_def)
qed

lemma axis_limits_skewed:
  "axis_limits (data_x skewed_sample)
     = Inr \<lparr>xlim = (- 1, 3), ylim = (0, 4), zlim = (- 3 / 2, 5 / 2)\<rparr>"
  by (rule axis_limits_ranges)
    (simp_all add: skewed_sample_def col_x_def col_y_def col_z_def)

lemma infer_constant_skewed:
  "infer softmax_exact constant_model skewed_sample = Inr [0, 0, 0]"
  by (simp add: infer_def constant_model_def skewed_sample_def argmax_softmax_one_hot)

lemma accuracy_skewed: "accuracy (map int [0, 0, 0]) [0, 0, 3] = Inr (Some (2 / 3))"
  by (simp add: accuracy_def np_equal_def np_mean_bool_def np_sum_bool_def)

lemma render_skewed:
  "render skewed_sample [0, 0, 0] =
     Inr \<lparr>pred_classes = [0, 0, 0],
          gt_colors = [''blue'', ''blue'', ''orange''],
          pred_colors = [''blue'', ''blue'', ''blue''],
          ax1_limits = \<lparr>xlim = (- 1, 3), ylim = (0, 4), zlim = (- 3 / 2, 5 / 2)\<rparr>,
          ax2_limits = \<lparr>xlim = (- 1, 3), ylim = (0, 4), zlim = (- 3 / 2, 5 / 2)\<rparr>,
          title_accuracy = Some (2 / 3)\<rparr>"
proof -
  have y: "data_y skewed_sample = [0, 0, 3]" by (simp add: skewed_sample_def)
  have c: "color_array [0, 0, 3] = Inr [''blue'', ''blue'', ''orange'']"
    "color_array (map int [0, 0, 0]) = Inr [''blue'', ''blue'', ''blue'']"
    by (simp_all add: color_array_def color_of_def py_index_def colors_def)
  have s: "scatter (data_x skewed_sample) [''blue'', ''blue'', ''orange''] = None"
    "scatter (data_x skewed_sample) [''blue'', ''blue'', ''blue''] = None"
    by (simp_all add: scatter_def skewed_sample_def)
  show ?thesis
    unfolding render_def Let_def y c s axis_limits_skewed accuracy_skewed sum.case option.case ..
qed

lemma skewed_run:
  "visualize_prediction softmax_exact constant_model savefig_ok skewed_sample None
     = (Forward # Show # report [0, 0, 3] [0, 0, 0],
        Inr \<lparr>pred_classes = [0, 0, 0],
             gt_colors = [''blue'', ''blue'', ''orange''],
             pred_colors = [''blue'', ''blue'', ''blue''],
             ax1_limits = \<lparr>xlim = (- 1, 3), ylim = (0, 4), zlim = (- 3 / 2, 5 / 2)\<rparr>,
             ax2_limits = \<lparr>xlim = (- 1, 3), ylim = (0, 4), zlim = (- 3 / 2, 5 / 2)\<rparr>,
             title_accuracy = Some (2 / 3)\<rparr>)"
proof -
  have y: "data_y skewed_sample = [0, 0, 3]" by (simp add: skewed_sample_def)
  show ?thesis
    unfolding visualize_prediction_def infer_constant_skewed render_skewed y sum.case
    by (simp add: truthy_def)
qed

lemma axis_limits_rounding:
  "axis_limits (data_x rounding_sample)
     = Inr \<lparr>xlim = (1 / 2 ^ 25, 1),
            ylim = (- ((1 - 1 / 2 ^ 24) / 2), (1 - 1 / 2 ^ 24) / 2),
            zlim = (- ((1 - 1 / 2 ^ 24) / 2), (1 - 1 / 2 ^ 24) / 2)\<rparr>"
proof -
  let ?h = "(1 - 1 / 2 ^ 24) / 2 :: real"
  have mx: "np_max [1, 1 / 2 ^ 24 :: real] = Inr 1" "np_min [1, 1 / 2 ^ 24 :: real] = Inr (1 / 2 ^ 24)"
    "np_max [0, 0 :: real] = Inr 0" "np_min [0, 0 :: real] = Inr 0"
    by (simp_all add: np_max_def np_min_def)
  have e0: "f32_round 0 = Some 0" by (rule f32_round_small)
  have span: "f32_op (\<lambda>a b. a - b) (Some 1) (Some (1 / 2 ^ 24)) = Some (1 - 1 / 2 ^ 24)"
    using f32_round_exact [of "1 - 1 / 2 ^ 24" "2 ^ 24 - 1" 24] by (simp add: f32_op_def)
  have span0: "f32_op (\<lambda>a b. a - b) (Some 0) (Some 0) = Some (0::real)"
    by (simp add: f32_op_def e0)
  have m3: "np_max3 (Some (1 - 1 / 2 ^ 24)) (Some 0) (Some 0) = Some (1 - 1 / 2 ^ 24)"
    by (simp add: np_max3_def)
  have half: "f32_op (\<lambda>a b. a / b) (Some (1 - 1 / 2 ^ 24)) (Some 2) = Some ?h"
    using f32_round_exact [of ?h "2 ^ 24 - 1" 25] by (simp add: f32_op_def)
  have sum: "f32_op (\<lambda>a b. a + b) (Some 1) (Some (1 / 2 ^ 24)) = Some 1"
    unfolding f32_op_def option.case by (rule f32_round_tie_above_one)
  have sum0: "f32_op (\<lambda>a b. a + b) (Some 0) (Some 0) = Some (0::real)"
    by (simp add: f32_op_def e0)
  have mid: "f32_op (\<lambda>a b. a * b) (Some 1) (Some (1 / 2)) = Some (1 / 2)"
    by (simp add: f32_op_def f32_round_small)
  have mid0: "f32_op (\<lambda>a b. a * b) (Some 0) (Some (1 / 2)) = Some (0::real)"
    by (simp add: f32_op_def e0)
  have "1 / 2 - ?h = 1 / 2 ^ 25" by simp
  then have lo: "f32_op (\<lambda>a b. a - b) (Some (1 / 2)) (Some ?h) = Some (1 / 2 ^ 25)"
    using f32_round_exact [of "1 / 2 ^ 25" 1 25] by (simp add: f32_op_def)
  have "1 / 2 + ?h = 1 - 1 / 2 ^ 25" by simp
  then have hi: "f32_op (\<lambda>a b. a + b) (Some (1 / 2)) (Some ?h) = Some 1"
    unfolding f32_op_def option.case by (simp only: f32_round_tie_below_one)
  have lo0: "f32_op (\<lambda>a b. a - b) (Some 0) (Some ?h) = Some (- ?h)"
    using f32_round_exact [of "- ?h" "- (2 ^ 24 - 1)" 25] by (simp add: f32_op_def)
  have hi0: "f32_op (\<lambda>a b. a + b) (Some 0) (Some ?h) = Some ?h"
    using f32_round_exact [of ?h "2 ^ 24 - 1" 25] by (simp add: f32_op_def)
  have cols: "map (\<lambda>p. fst p) (data_x rounding_sample) = [1, 1 / 2 ^ 24]"
    "map (\<lambda>p. fst (snd p)) (data_x rounding_sample) = [0, 0]"
    "map (\<lambda>p. snd (snd p)) (data_x rounding_sample) = [0, 0]"
    by (simp_all add: rounding_sample_def)
  show ?thesis
    unfolding axis_limits_def Let_def cols
    unfolding mx sum.case
    unfolding span span0 m3
    unfolding half sum sum0
    unfolding mid mid0
    unfolding lo hi lo0 hi0
    by (simp add: set_lim_def)
qed

lemma axis_limits_overflow: "axis_limits (data_x overflow_sample) = Inl ValueError"
proof -
  have mx: "np_max [2 ^ 127, - (2 ^ 127) :: real] = Inr (2 ^ 127)"
    "np_min [2 ^ 127, - (2 ^ 127) :: real] = Inr (- (2 ^ 127))"
    "np_max [0, 0 :: real] = Inr 0" "np_min [0, 0 :: real] = Inr 0"
    by (simp_all add: np_max_def np_min_def)
  have "2 ^ 127 - - (2 ^ 127) = (2 ^ 128 :: real)" by simp
  then have span: "f32_op (\<lambda>a b. a - b) (Some (2 ^ 127)) (Some (- (2 ^ 127))) = None"
    unfolding f32_op_def option.case by (simp only: f32_round_overflow)
  have cols: "map (\<lambda>p. fst p) (data_x overflow_sample) = [2 ^ 127, - (2 ^ 127)]"
    "map (\<lambda>p. fst (snd p)) (data_x overflow_sample) = [0, 0]"
    "map (\<lambda>p. snd (snd p)) (data_x overflow_sample) = [0, 0]"
    by (simp_all add: overflow_sample_def)
  show ?thesis
    unfolding axis_limits_def Let_def cols
    unfolding mx sum.case
    unfolding span
    by (simp add: set_lim_def np_max3_def)
qed

lemma accuracy_identical_example:
  "accuracy (map int [0, 1, 2, 3, 4]) [0, 1, 2, 3, 4] = Inr (Some 1)"
  by (simp add: accuracy_def np_equal_def np_mean_bool_def np_sum_bool_def)

lemma counts_identical_example:
  "map (\<lambda>i. np_sum_bool (np_equal_scalar [0, 1, 2, 3, 4] (int i))) [0..<5] = [1, 1, 1, 1, 1]"
  by (simp add: upt_5 np_sum_bool_def np_equal_scalar_def)

section \<open>The properties\<close>

subsection \<open>Accuracy in the figure title\<close>

text \<open>
  Claim C1. For predicted classes and ground-truth labels of one length \<open>N \<ge> 1\<close>, line 74
  returns the number of points whose predicted class equals the ground-truth class,
  divided by \<open>N\<close>; the value lies between 0 and 1; and it is the accuracy in the title of
  every figure the routine completes for these labels and classes.
\<close>

theorem title_accuracy_is_match_fraction:
  assumes "length ground_truth = N" and "length pred = N" and "1 \<le> N"
  shows "accuracy (map int pred) ground_truth
           = Inr (Some (real (card {i. i < N \<and> int (pred ! i) = ground_truth ! i}) / real N))
         \<and> 0 \<le> real (card {i. i < N \<and> int (pred ! i) = ground_truth ! i}) / real N
         \<and> real (card {i. i < N \<and> int (pred ! i) = ground_truth ! i}) / real N \<le> 1
         \<and> (\<forall>softmax model savefig data save_path evs fig.
               visualize_prediction softmax model savefig data save_path = (evs, Inr fig)
               \<and> data_y data = ground_truth \<and> pred_classes fig = pred
               \<longrightarrow> title_accuracy fig
                     = Some (real (card {i. i < N \<and> int (pred ! i) = ground_truth ! i}) / real N))"
proof -
  let ?a = "real (card {i. i < N \<and> int (pred ! i) = ground_truth ! i}) / real N"
  have len: "length pred = length ground_truth" using assms(1,2) by simp
  have ne: "ground_truth \<noteq> []" using assms(1,3) by auto
  have m: "matches pred ground_truth = card {i. i < N \<and> int (pred ! i) = ground_truth ! i}"
    using assms(1) by (simp add: matches_def)
  have acc: "accuracy (map int pred) ground_truth = Inr (Some ?a)"
    using accuracy_equal_length [OF len ne] assms(1) by (simp add: m)
  have "matches pred ground_truth \<le> N" using matches_le [of pred ground_truth] assms(1) by simp
  then have le: "?a \<le> 1" using assms(3) by (simp add: m)
  have ge: "0 \<le> ?a" by simp
  have link: "title_accuracy fig = Some ?a"
    if "visualize_prediction softmax model savefig data save_path = (evs, Inr fig)
        \<and> data_y data = ground_truth \<and> pred_classes fig = pred"
    for softmax model savefig data save_path evs fig
  proof -
    from that have run: "visualize_prediction softmax model savefig data save_path = (evs, Inr fig)"
      and y: "data_y data = ground_truth" and p: "pred_classes fig = pred"
      by simp_all
    have "render data pred = Inr fig"
      using visualize_prediction_Inr(2) [OF run] p by simp
    from render_Inr(6) [OF this] acc y show ?thesis by simp
  qed
  from acc ge le link show ?thesis by blast
qed

text \<open>
  The run of the network that answers class 0 everywhere on \<open>skewed_sample\<close>, whose labels
  are \<open>[0, 0, 3]\<close>: two of three points match, the title reports 2/3.
\<close>

theorem title_accuracy_is_match_fraction_witness:
  "data_y skewed_sample = [0, 0, 3] \<and> length [0, 0, 0 :: nat] = 3
   \<and> accuracy (map int [0, 0, 0]) (data_y skewed_sample) = Inr (Some (2 / 3))
   \<and> real (card {i. i < 3 \<and> int ([0, 0, 0] ! i) = data_y skewed_sample ! i}) / real 3 = 2 / 3
   \<and> visualize_prediction softmax_exact constant_model savefig_ok skewed_sample None
       = (Forward # Show # report [0, 0, 3] [0, 0, 0],
          Inr \<lparr>pred_classes = [0, 0, 0],
               gt_colors = [''blue'', ''blue'', ''orange''],
               pred_colors = [''blue'', ''blue'', ''blue''],
               ax1_limits = \<lparr>xlim = (- 1, 3), ylim = (0, 4), zlim = (- 3 / 2, 5 / 2)\<rparr>,
               ax2_limits = \<lparr>xlim = (- 1, 3), ylim = (0, 4), zlim = (- 3 / 2, 5 / 2)\<rparr>,
               title_accuracy = Some (2 / 3)\<rparr>)"
proof -
  have y: "data_y skewed_sample = [0, 0, 3]" by (simp add: skewed_sample_def)
  have ly: "length (data_y skewed_sample) = 3" and lp: "length [0, 0, 0 :: nat] = 3"
    and n: "1 \<le> (3::nat)"
    by (simp_all add: y)
  have a: "accuracy (map int [0, 0, 0]) (data_y skewed_sample) = Inr (Some (2 / 3))"
    unfolding y by (rule accuracy_skewed)
  from title_accuracy_is_match_fraction [OF ly lp n]
  have "accuracy (map int [0, 0, 0]) (data_y skewed_sample)
          = Inr (Some (real (card {i. i < 3 \<and> int ([0, 0, 0] ! i) = data_y skewed_sample ! i})
                       / real 3))"
    by (rule conjunct1)
  with a have "real (card {i. i < 3 \<and> int ([0, 0, 0] ! i) = data_y skewed_sample ! i}) / real 3
      = 2 / 3"
    by simp
  with y lp a skewed_run show ?thesis by blast
qed

subsection \<open>Predicted classes\<close>

text \<open>
  Claim C2. The routine applies softmax to each row of the logits (the class dimension,
  dimension 1) and takes the argmax of each resulting row: there is one predicted class
  per row of logits, and the class of point \<open>i\<close> is the first index at which the softmax of row
  \<open>i\<close> is maximal. The inference succeeds whenever the network does and every row has at
  least one class; a run that returns has used exactly these classes.
\<close>

theorem predicted_classes_are_softmax_argmax:
  assumes "model data = Inr outputs" and "\<forall>row\<in>set outputs. softmax row \<noteq> []"
  shows "\<exists>pred. infer softmax model data = Inr pred
           \<and> length pred = length outputs
           \<and> (\<forall>i<length outputs. is_first_argmax (softmax (outputs ! i)) (pred ! i))
           \<and> (\<forall>savefig save_path evs fig.
                 visualize_prediction softmax model savefig data save_path = (evs, Inr fig)
                 \<longrightarrow> pred_classes fig = pred)"
proof -
  from infer_total [where model = model and data = data and softmax = softmax, OF assms]
  obtain pred where pred: "infer softmax model data = Inr pred" ..
  have len: "length pred = length outputs" by (rule infer_Inr(1) [OF pred assms(1)])
  have first: "is_first_argmax (softmax (outputs ! i)) (pred ! i)" if "i < length outputs" for i
  proof -
    have "softmax (outputs ! i) \<noteq> []" using assms(2) that by simp
    from argmax_first [OF this] obtain k
      where "argmax (softmax (outputs ! i)) = Inr k" and "is_first_argmax (softmax (outputs ! i)) k"
      by blast
    with infer_Inr(2) [OF pred assms(1) that] show ?thesis by simp
  qed
  have "pred_classes fig = pred"
    if "visualize_prediction softmax model savefig data save_path = (evs, Inr fig)"
    for savefig save_path evs fig
    using visualize_prediction_Inr(1) [OF that] pred by simp
  with pred len first show ?thesis by blast
qed

text \<open>
  The oracle network on \<open>example_sample\<close>: classes 0 to 4, class 2 for the third point.
\<close>

theorem predicted_classes_are_softmax_argmax_witness:
  "oracle_model example_sample = Inr (map one_hot [0, 1, 2, 3, 4])
   \<and> [] \<notin> set (map softmax_exact (map one_hot [0, 1, 2, 3, 4]))
   \<and> infer softmax_exact oracle_model example_sample = Inr [0, 1, 2, 3, 4]
   \<and> is_first_argmax (softmax_exact (one_hot 2)) 2"
proof -
  have m: "oracle_model example_sample = Inr (map one_hot [0, 1, 2, 3, 4])"
    by (simp add: oracle_model_def example_sample_def)
  have ne: "\<forall>row\<in>set (map one_hot [0, 1, 2, 3, 4]). softmax_exact row \<noteq> []"
    by (simp add: softmax_exact_def one_hot_def upt_5)
  from predicted_classes_are_softmax_argmax [where model = oracle_model
      and data = example_sample and softmax = softmax_exact, OF m ne] infer_oracle_example
  have "\<forall>i<5. is_first_argmax (softmax_exact (map one_hot [0, 1, 2, 3, 4] ! i)) ([0, 1, 2, 3, 4] ! i)"
    by auto
  then have "(2::nat) < 5 \<longrightarrow>
      is_first_argmax (softmax_exact (map one_hot [0, 1, 2, 3, 4] ! 2)) ([0, 1, 2, 3, 4] ! 2)"
    by (rule spec)
  then have "is_first_argmax (softmax_exact (one_hot 2)) 2" by simp
  moreover have "[] \<notin> set (map softmax_exact (map one_hot [0, 1, 2, 3, 4]))"
    using ne by auto
  ultimately show ?thesis using m infer_oracle_example by simp
qed

subsection \<open>Colour arrays\<close>

text \<open>
  Claim C3. For a sample with \<open>N\<close> points whose ground-truth labels and predicted classes
  all lie in \<open>0..4\<close>, both comprehensions succeed (no lookup is out of bounds), both
  colour arrays have length \<open>N\<close>, every entry is one of the five fixed colours, namely the
  colour at the label's own index, and these are the arrays of the figure.
\<close>

theorem color_arrays_use_fixed_colors:
  assumes "infer softmax model data = Inr pred"
    and "length (data_y data) = N" and "length pred = N"
    and "\<forall>c\<in>set (data_y data). 0 \<le> c \<and> c \<le> 4" and "\<forall>c\<in>set pred. c \<le> 4"
  shows "\<exists>c1 c2. color_array (data_y data) = Inr c1 \<and> color_array (map int pred) = Inr c2
           \<and> length c1 = N \<and> length c2 = N
           \<and> set c1 \<subseteq> {''blue'', ''green'', ''yellow'', ''orange'', ''red''}
           \<and> set c2 \<subseteq> {''blue'', ''green'', ''yellow'', ''orange'', ''red''}
           \<and> (\<forall>i<N. c1 ! i = colors ! nat (data_y data ! i))
           \<and> (\<forall>i<N. c2 ! i = colors ! (pred ! i))
           \<and> (\<forall>savefig save_path evs fig.
                 visualize_prediction softmax model savefig data save_path = (evs, Inr fig)
                 \<longrightarrow> gt_colors fig = c1 \<and> pred_colors fig = c2)"
proof -
  have "\<forall>c\<in>set (data_y data). - 5 \<le> c \<and> c \<le> 4" using assms(4) by auto
  then obtain c1 where c1: "color_array (data_y data) = Inr c1"
    using color_array_total by blast
  have "\<forall>c\<in>set (map int pred). - 5 \<le> c \<and> c \<le> 4" using assms(5) by auto
  then obtain c2 where c2: "color_array (map int pred) = Inr c2"
    using color_array_total by blast
  have l1: "length c1 = N" using c1 assms(2) by (simp add: color_array_def map_result_length)
  have l2: "length c2 = N" using c2 assms(3) by (simp add: color_array_def map_result_length)
  have set_colors: "set colors = {''blue'', ''green'', ''yellow'', ''orange'', ''red''}"
    by (simp add: colors_def)
  have s1: "set c1 \<subseteq> {''blue'', ''green'', ''yellow'', ''orange'', ''red''}"
    using color_array_in_colors [OF c1] unfolding set_colors .
  have s2: "set c2 \<subseteq> {''blue'', ''green'', ''yellow'', ''orange'', ''red''}"
    using color_array_in_colors [OF c2] unfolding set_colors .
  have n1: "c1 ! i = colors ! nat (data_y data ! i)" if "i < N" for i
  proof -
    have "color_of (data_y data ! i) = Inr (c1 ! i)"
      using c1 that assms(2) by (auto simp: color_array_def dest: map_result_nth)
    moreover have "0 \<le> data_y data ! i \<and> data_y data ! i \<le> 4"
      using assms(2,4) that by simp
    ultimately show ?thesis by (simp add: color_of_in_range)
  qed
  have n2: "c2 ! i = colors ! (pred ! i)" if "i < N" for i
  proof -
    have "color_of (map int pred ! i) = Inr (c2 ! i)"
      using c2 that assms(3) map_result_nth [of color_of "map int pred" c2 i]
      by (simp add: color_array_def)
    moreover have "pred ! i \<le> 4" using assms(3,5) that by simp
    ultimately show ?thesis using that assms(3) by (simp add: color_of_in_range)
  qed
  have link: "gt_colors fig = c1 \<and> pred_colors fig = c2"
    if "visualize_prediction softmax model savefig data save_path = (evs, Inr fig)"
    for savefig save_path evs fig
  proof -
    from visualize_prediction_Inr(1,2) [OF that] assms(1)
    have p: "pred_classes fig = pred" and r: "render data pred = Inr fig" by simp_all
    from render_Inr(2,3) [OF r] c1 c2 show ?thesis by simp
  qed
  from c1 c2 l1 l2 s1 s2 n1 n2 link show ?thesis by blast
qed

text \<open>
  On \<open>example_sample\<close> both arrays are the five colours in order.
\<close>

theorem color_arrays_use_fixed_colors_witness:
  "infer softmax_exact oracle_model example_sample = Inr [0, 1, 2, 3, 4]
   \<and> data_y example_sample = [0, 1, 2, 3, 4]
   \<and> color_array (data_y example_sample) = Inr (gt_colors example_plot)
   \<and> color_array (map int [0, 1, 2, 3, 4]) = Inr (pred_colors example_plot)
   \<and> length (gt_colors example_plot) = 5 \<and> length (pred_colors example_plot) = 5"
proof -
  have ly: "length (data_y example_sample) = 5"
    and ry: "\<forall>c\<in>set (data_y example_sample). 0 \<le> c \<and> c \<le> 4"
    by (simp_all add: example_sample_def)
  have lp: "length [0, 1, 2, 3, 4 :: nat] = 5" and rp: "\<forall>c\<in>set [0, 1, 2, 3, 4 :: nat]. c \<le> 4"
    by simp_all
  from color_arrays_use_fixed_colors [OF infer_oracle_example ly lp ry rp] example_run_unsaved
  have "color_array (data_y example_sample) = Inr (gt_colors example_plot)
        \<and> color_array (map int [0, 1, 2, 3, 4]) = Inr (pred_colors example_plot)
        \<and> length (gt_colors example_plot) = 5 \<and> length (pred_colors example_plot) = 5"
    by blast
  moreover have "data_y example_sample = [0, 1, 2, 3, 4]"
    by (simp add: example_sample_def)
  ultimately show ?thesis using infer_oracle_example by blast
qed

subsection \<open>The class report\<close>

text \<open>
  Claim C4. For \<open>N\<close> ground-truth labels and \<open>N\<close> predicted classes that all lie in \<open>0..4\<close>,
  the report of lines 85 to 89 prints, for each class \<open>i\<close> of \<open>0..4\<close>, the number of labels
  equal to \<open>i\<close> and the number of predicted classes equal to \<open>i\<close>; the five ground-truth
  counts sum to \<open>N\<close> and so do the five predicted counts. Every run that returns ends with
  this report and prints no other count. For the labels \<open>[0,1,2,3,4]\<close> with identical
  predictions every count is 1 on both sides and the accuracy is 1, that is 100%.
\<close>

theorem class_report_counts_sum_to_N:
  assumes "length ground_truth = N" and "length pred = N"
    and "\<forall>c\<in>set ground_truth. 0 \<le> c \<and> c \<le> 4" and "\<forall>c\<in>set pred. c \<le> 4"
  shows "ground_truth_counts (report ground_truth (map int pred))
           = map (\<lambda>i. length (filter (\<lambda>c. c = int i) ground_truth)) [0..<5]
         \<and> predicted_counts (report ground_truth (map int pred))
           = map (\<lambda>i. length (filter (\<lambda>c. c = i) pred)) [0..<5]
         \<and> sum_list (ground_truth_counts (report ground_truth (map int pred))) = N
         \<and> sum_list (predicted_counts (report ground_truth (map int pred))) = N
         \<and> (\<forall>softmax model savefig data save_path evs fig.
               visualize_prediction softmax model savefig data save_path = (evs, Inr fig)
               \<and> data_y data = ground_truth \<and> pred_classes fig = pred
               \<longrightarrow> (\<exists>pre. evs = pre @ report ground_truth (map int pred)
                          \<and> ground_truth_counts pre = [] \<and> predicted_counts pre = [])
                   \<and> ground_truth_counts evs
                       = ground_truth_counts (report ground_truth (map int pred))
                   \<and> predicted_counts evs
                       = predicted_counts (report ground_truth (map int pred)))
         \<and> (ground_truth = [0, 1, 2, 3, 4] \<and> pred = [0, 1, 2, 3, 4]
               \<longrightarrow> ground_truth_counts (report ground_truth (map int pred)) = [1, 1, 1, 1, 1]
                 \<and> predicted_counts (report ground_truth (map int pred)) = [1, 1, 1, 1, 1]
                 \<and> accuracy (map int pred) ground_truth = Inr (Some 1))"
proof -
  let ?rep = "report ground_truth (map int pred)"
  have gtc: "ground_truth_counts ?rep
               = map (\<lambda>i. length (filter (\<lambda>c. c = int i) ground_truth)) [0..<5]"
    by (simp add: ground_truth_counts_report np_sum_bool_count)
  have pc: "predicted_counts ?rep = map (\<lambda>i. length (filter (\<lambda>c. c = i) pred)) [0..<5]"
    by (simp add: predicted_counts_report np_sum_bool_count comp_def)
  have "\<forall>c\<in>set (map int pred). 0 \<le> c \<and> c \<le> 4" using assms(4) by auto
  from class_counts_sum [OF this] class_counts_sum [OF assms(3)]
  have sums: "sum_list (ground_truth_counts ?rep) = N" "sum_list (predicted_counts ?rep) = N"
    using assms(1,2) by (simp_all add: ground_truth_counts_report predicted_counts_report)
  have link: "(\<exists>pre. evs = pre @ ?rep \<and> ground_truth_counts pre = [] \<and> predicted_counts pre = [])
      \<and> ground_truth_counts evs = ground_truth_counts ?rep
      \<and> predicted_counts evs = predicted_counts ?rep"
    if "visualize_prediction softmax model savefig data save_path = (evs, Inr fig)
        \<and> data_y data = ground_truth \<and> pred_classes fig = pred"
    for softmax model savefig data save_path evs fig
  proof -
    from that have run: "visualize_prediction softmax model savefig data save_path = (evs, Inr fig)"
      and y: "data_y data = ground_truth" and p: "pred_classes fig = pred"
      by simp_all
    have evs: "evs = (if truthy save_path
                      then [Forward, Savefig (the save_path) 300 ''tight'', Show]
                      else [Forward, Show]) @ ?rep"
      using visualize_prediction_Inr(3) [OF run] y p by simp
    show ?thesis
    proof (cases "truthy save_path")
      case True
      with evs have e: "evs = [Forward, Savefig (the save_path) 300 ''tight'', Show] @ ?rep"
        by simp
      have "ground_truth_counts [Forward, Savefig (the save_path) 300 ''tight'', Show] = []"
        "predicted_counts [Forward, Savefig (the save_path) 300 ''tight'', Show] = []"
        by simp_all
      moreover have "ground_truth_counts evs = ground_truth_counts ?rep"
        "predicted_counts evs = predicted_counts ?rep"
        unfolding e by (simp_all add: counts_prefix)
      ultimately show ?thesis using e by blast
    next
      case False
      with evs have e: "evs = [Forward, Show] @ ?rep" by simp
      have "ground_truth_counts [Forward, Show] = []" "predicted_counts [Forward, Show] = []"
        by simp_all
      moreover have "ground_truth_counts evs = ground_truth_counts ?rep"
        "predicted_counts evs = predicted_counts ?rep"
        unfolding e by (simp_all add: counts_prefix)
      ultimately show ?thesis using e by blast
    qed
  qed
  have particular: "ground_truth_counts ?rep = [1, 1, 1, 1, 1]
      \<and> predicted_counts ?rep = [1, 1, 1, 1, 1]
      \<and> accuracy (map int pred) ground_truth = Inr (Some 1)"
    if "ground_truth = [0, 1, 2, 3, 4] \<and> pred = [0, 1, 2, 3, 4]"
  proof -
    from that have g: "ground_truth = [0, 1, 2, 3, 4]" and p: "pred = [0, 1, 2, 3, 4]"
      by simp_all
    have "accuracy (map int pred) ground_truth = Inr (Some 1)"
      unfolding g p by (rule accuracy_identical_example)
    moreover have "ground_truth_counts ?rep = [1, 1, 1, 1, 1]"
      unfolding ground_truth_counts_report g by (rule counts_identical_example)
    moreover have "map int [0, 1, 2, 3, 4] = [0, 1, 2, 3, 4]" by simp
    then have "predicted_counts ?rep = [1, 1, 1, 1, 1]"
      unfolding predicted_counts_report p by (simp only: counts_identical_example)
    ultimately show ?thesis by simp
  qed
  from gtc pc sums link particular show ?thesis by blast
qed

text \<open>
  The run on \<open>skewed_sample\<close> with class 0 predicted everywhere prints the ground-truth
  counts 2, 0, 0, 1, 0 and the predicted counts 3, 0, 0, 0, 0, both with sum 3; the run on
  \<open>example_sample\<close>, whose labels \<open>[0,1,2,3,4]\<close> are predicted exactly, prints 1 everywhere.
\<close>

theorem class_report_counts_sum_to_N_witness:
  "data_y skewed_sample = [0, 0, 3]
   \<and> visualize_prediction softmax_exact constant_model savefig_ok skewed_sample None
       = (Forward # Show # report [0, 0, 3] (map int [0, 0, 0]),
          Inr \<lparr>pred_classes = [0, 0, 0],
               gt_colors = [''blue'', ''blue'', ''orange''],
               pred_colors = [''blue'', ''blue'', ''blue''],
               ax1_limits = \<lparr>xlim = (- 1, 3), ylim = (0, 4), zlim = (- 3 / 2, 5 / 2)\<rparr>,
               ax2_limits = \<lparr>xlim = (- 1, 3), ylim = (0, 4), zlim = (- 3 / 2, 5 / 2)\<rparr>,
               title_accuracy = Some (2 / 3)\<rparr>)
   \<and> ground_truth_counts (report [0, 0, 3] (map int [0, 0, 0])) = [2, 0, 0, 1, 0]
   \<and> predicted_counts (report [0, 0, 3] (map int [0, 0, 0])) = [3, 0, 0, 0, 0]
   \<and> sum_list (ground_truth_counts (report [0, 0, 3] (map int [0, 0, 0]))) = 3
   \<and> sum_list (predicted_counts (report [0, 0, 3] (map int [0, 0, 0]))) = 3
   \<and> ground_truth_counts (Forward # Show # report [0, 0, 3] (map int [0, 0, 0])) = [2, 0, 0, 1, 0]
   \<and> data_y example_sample = [0, 1, 2, 3, 4]
   \<and> visualize_prediction softmax_exact oracle_model savefig_ok example_sample None
       = (Forward # Show # example_report, Inr example_plot)
   \<and> pred_classes example_plot = [0, 1, 2, 3, 4]
   \<and> ground_truth_counts (Forward # Show # example_report) = [1, 1, 1, 1, 1]
   \<and> predicted_counts (Forward # Show # example_report) = [1, 1, 1, 1, 1]
   \<and> title_accuracy example_plot = Some 1"
proof -
  have y: "data_y skewed_sample = [0, 0, 3]" by (simp add: skewed_sample_def)
  have run: "visualize_prediction softmax_exact constant_model savefig_ok skewed_sample None
       = (Forward # Show # report [0, 0, 3] (map int [0, 0, 0]),
          Inr \<lparr>pred_classes = [0, 0, 0],
               gt_colors = [''blue'', ''blue'', ''orange''],
               pred_colors = [''blue'', ''blue'', ''blue''],
               ax1_limits = \<lparr>xlim = (- 1, 3), ylim = (0, 4), zlim = (- 3 / 2, 5 / 2)\<rparr>,
               ax2_limits = \<lparr>xlim = (- 1, 3), ylim = (0, 4), zlim = (- 3 / 2, 5 / 2)\<rparr>,
               title_accuracy = Some (2 / 3)\<rparr>)"
    using skewed_run by simp
  have lg: "length [0, 0, 3 :: int] = 3" and lp: "length [0, 0, 0 :: nat] = 3"
    and rg: "\<forall>c\<in>set [0, 0, 3 :: int]. 0 \<le> c \<and> c \<le> 4"
    and rp: "\<forall>c\<in>set [0, 0, 0 :: nat]. c \<le> 4"
    by simp_all
  note skewed = class_report_counts_sum_to_N [OF lg lp rg rp]
  from skewed have g: "ground_truth_counts (report [0, 0, 3] (map int [0, 0, 0])) = [2, 0, 0, 1, 0]"
    by (simp add: upt_5)
  from skewed have p: "predicted_counts (report [0, 0, 3] (map int [0, 0, 0])) = [3, 0, 0, 0, 0]"
    by (simp add: upt_5)
  from skewed have sg: "sum_list (ground_truth_counts (report [0, 0, 3] (map int [0, 0, 0]))) = 3"
    and sp: "sum_list (predicted_counts (report [0, 0, 3] (map int [0, 0, 0]))) = 3"
    by blast+
  from skewed run y
  have "ground_truth_counts (Forward # Show # report [0, 0, 3] (map int [0, 0, 0]))
          = ground_truth_counts (report [0, 0, 3] (map int [0, 0, 0]))"
    by (simp add: counts_prefix)
  with g have tg: "ground_truth_counts (Forward # Show # report [0, 0, 3] (map int [0, 0, 0]))
      = [2, 0, 0, 1, 0]"
    by simp
  have ey: "data_y example_sample = [0, 1, 2, 3, 4]" by (simp add: example_sample_def)
  have ep: "pred_classes example_plot = [0, 1, 2, 3, 4]" by (simp add: example_plot_def)
  have lg5: "length [0, 1, 2, 3, 4 :: int] = 5" and lp5: "length [0, 1, 2, 3, 4 :: nat] = 5"
    and rg5: "\<forall>c\<in>set [0, 1, 2, 3, 4 :: int]. 0 \<le> c \<and> c \<le> 4"
    and rp5: "\<forall>c\<in>set [0, 1, 2, 3, 4 :: nat]. c \<le> 4"
    by simp_all
  note identical = class_report_counts_sum_to_N [OF lg5 lp5 rg5 rp5]
  from identical
  have link: "\<forall>softmax model savefig data save_path evs fig.
               visualize_prediction softmax model savefig data save_path = (evs, Inr fig)
               \<and> data_y data = [0, 1, 2, 3, 4] \<and> pred_classes fig = [0, 1, 2, 3, 4]
               \<longrightarrow> ground_truth_counts evs
                       = ground_truth_counts (report [0, 1, 2, 3, 4] (map int [0, 1, 2, 3, 4]))
                   \<and> predicted_counts evs
                       = predicted_counts (report [0, 1, 2, 3, 4] (map int [0, 1, 2, 3, 4]))"
    by blast
  from identical
  have ones: "ground_truth_counts (report [0, 1, 2, 3, 4] (map int [0, 1, 2, 3, 4])) = [1, 1, 1, 1, 1]"
    "predicted_counts (report [0, 1, 2, 3, 4] (map int [0, 1, 2, 3, 4])) = [1, 1, 1, 1, 1]"
    by blast+
  from link example_run_unsaved ey ep
  have "ground_truth_counts (Forward # Show # example_report)
          = ground_truth_counts (report [0, 1, 2, 3, 4] (map int [0, 1, 2, 3, 4]))
        \<and> predicted_counts (Forward # Show # example_report)
          = predicted_counts (report [0, 1, 2, 3, 4] (map int [0, 1, 2, 3, 4]))"
    by blast
  with ones have eg: "ground_truth_counts (Forward # Show # example_report) = [1, 1, 1, 1, 1]"
    and epc: "predicted_counts (Forward # Show # example_report) = [1, 1, 1, 1, 1]"
    by simp_all
  have acc: "title_accuracy example_plot = Some 1" by (simp add: example_plot_def)
  from y run g p sg sp tg ey example_run_unsaved ep eg epc acc show ?thesis by blast
qed

subsection \<open>The latest checkpoint directory\<close>

text \<open>
  Claim C5. When the checkpoint root has at least one subdirectory, the driver selects
  the lexicographically largest subdirectory name: it is one of the names, no name is
  larger, and the one checkpoint the driver loads is \<^verbatim>\<open>best_model.pt\<close> inside that
  directory. Of the names 2023-01-01, 2023-06-01 and 2022-12-31 it selects 2023-06-01.
\<close>

theorem latest_checkpoint_is_lexicographic_max:
  assumes "load_config env ''configs/config.yaml'' = Inr cfg"
    and "listdir env (checkpoint_dir cfg) = Inr names"
    and "timestamp_dirs = filter (\<lambda>d. isdir env (path_join (checkpoint_dir cfg) d)) names"
    and "timestamp_dirs \<noteq> []"
  shows "select_latest timestamp_dirs = Inr (Max (set timestamp_dirs))
         \<and> Max (set timestamp_dirs) \<in> set timestamp_dirs
         \<and> (\<forall>d\<in>set timestamp_dirs. d \<le> Max (set timestamp_dirs))
         \<and> Torch_load (path_join (path_join (checkpoint_dir cfg) (Max (set timestamp_dirs)))
                         ''best_model.pt'') \<in> set (fst (main env))
         \<and> (\<forall>p. Torch_load p \<in> set (fst (main env))
               \<longrightarrow> p = path_join (path_join (checkpoint_dir cfg) (Max (set timestamp_dirs)))
                                  ''best_model.pt'')
         \<and> select_latest [''2023-01-01'', ''2023-06-01'', ''2022-12-31''] = Inr ''2023-06-01''"
proof -
  let ?latest = "Max (set timestamp_dirs)"
  let ?path = "path_join (path_join (checkpoint_dir cfg) ?latest) ''best_model.pt''"
  have sel: "select_latest timestamp_dirs = Inr ?latest"
    by (rule select_latest_Max [OF assms(4)])
  have sel': "select_latest (filter (\<lambda>d. isdir env (path_join (checkpoint_dir cfg) d)) names)
      = Inr ?latest"
    using sel assms(3) by simp
  have mx: "?latest \<in> set timestamp_dirs" "\<forall>d\<in>set timestamp_dirs. d \<le> ?latest"
    using assms(4) by simp_all
  have no_load: "Torch_load p \<notin> set evs"
    if "visualize_all softmax model savefig batches = (evs, r)" for softmax model savefig batches evs r p
    using visualize_all_no_driver_event [OF that, of "Torch_load p"]
    by (auto simp: driver_event_def)
  have loads: "Torch_load p \<in> set (fst (main env)) \<longleftrightarrow> p = ?path" for p
    unfolding main_def Let_def assms(1) assms(2) sel' sum.case
    by (auto split: sum.splits prod.splits option.splits dest: no_load)
  from sel mx loads select_latest_example show ?thesis by blast
qed

text \<open>
  A root that lists the three names and a file: the driver loads from 2023-06-01.
\<close>

theorem latest_checkpoint_is_lexicographic_max_witness:
  "load_config (example_env [''2023-01-01'', ''notes.txt'', ''2023-06-01'', ''2022-12-31''])
       ''configs/config.yaml'' = Inr example_config
   \<and> listdir (example_env [''2023-01-01'', ''notes.txt'', ''2023-06-01'', ''2022-12-31''])
       (checkpoint_dir example_config)
       = Inr [''2023-01-01'', ''notes.txt'', ''2023-06-01'', ''2022-12-31'']
   \<and> filter (\<lambda>d. isdir (example_env [''2023-01-01'', ''notes.txt'', ''2023-06-01'', ''2022-12-31''])
                 (path_join (checkpoint_dir example_config) d))
        [''2023-01-01'', ''notes.txt'', ''2023-06-01'', ''2022-12-31'']
       = [''2023-01-01'', ''2023-06-01'', ''2022-12-31'']
   \<and> Max (set [''2023-01-01'', ''2023-06-01'', ''2022-12-31'']) = ''2023-06-01''
   \<and> Torch_load ''checkpoints/2023-06-01/best_model.pt''
        \<in> set (fst (main (example_env [''2023-01-01'', ''notes.txt'', ''2023-06-01'', ''2022-12-31''])))"
proof -
  let ?names = "[''2023-01-01'', ''notes.txt'', ''2023-06-01'', ''2022-12-31'']"
  let ?dirs = "[''2023-01-01'', ''2023-06-01'', ''2022-12-31'']"
  have c: "load_config (example_env ?names) ''configs/config.yaml'' = Inr example_config"
    and l: "listdir (example_env ?names) (checkpoint_dir example_config) = Inr ?names"
    by (simp_all add: example_env_def)
  have f: "?dirs = filter (\<lambda>d. isdir (example_env ?names)
      (path_join (checkpoint_dir example_config) d)) ?names"
    by (simp add: example_env_def example_config_def path_join_def)
  have ne: "?dirs \<noteq> []" by simp
  have mx: "Max (set ?dirs) = ''2023-06-01''" by simp
  have p: "path_join (path_join (checkpoint_dir example_config) ''2023-06-01'') ''best_model.pt''
      = ''checkpoints/2023-06-01/best_model.pt''"
    by (simp add: example_config_def path_join_def)
  from latest_checkpoint_is_lexicographic_max [OF c l f ne]
  have "Torch_load ''checkpoints/2023-06-01/best_model.pt''
      \<in> set (fst (main (example_env ?names)))"
    unfolding mx p by blast
  with c l f [symmetric] mx show ?thesis by blast
qed

subsection \<open>No checkpoint directory\<close>

text \<open>
  Claim C6. When the listing of the checkpoint root holds no subdirectory, the driver
  raises FileNotFoundError after loading the configuration, constructing the network
  and listing the root, and has done nothing else: no checkpoint is loaded, no dataset or
  loader is constructed, no forward pass runs, nothing is saved or shown.
\<close>

theorem no_checkpoint_dirs_raises_not_found:
  assumes "load_config env ''configs/config.yaml'' = Inr cfg"
    and "listdir env (checkpoint_dir cfg) = Inr names"
    and "\<forall>d\<in>set names. \<not> isdir env (path_join (checkpoint_dir cfg) d)"
  shows "main env = ([Load_config ''configs/config.yaml'',
                      Construct_model (model_k cfg) (model_dropout cfg),
                      Listdir (checkpoint_dir cfg)], Some FileNotFoundError)
         \<and> (\<forall>p. Torch_load p \<notin> set (fst (main env)))
         \<and> Load_state_dict \<notin> set (fst (main env))
         \<and> (\<forall>p d. Construct_dataset p d \<notin> set (fst (main env)))
         \<and> (\<forall>ids b. Get_dataloaders ids b \<notin> set (fst (main env)))
         \<and> Forward \<notin> set (fst (main env))
         \<and> (\<forall>p d b. Savefig p d b \<notin> set (fst (main env)))
         \<and> Show \<notin> set (fst (main env))"
proof -
  have "filter (\<lambda>d. isdir env (path_join (checkpoint_dir cfg) d)) names = []"
    using assms(3) by (simp add: filter_empty_conv)
  then have "main env = ([Load_config ''configs/config.yaml'',
                      Construct_model (model_k cfg) (model_dropout cfg),
                      Listdir (checkpoint_dir cfg)], Some FileNotFoundError)"
    by (simp add: main_def Let_def assms(1,2) select_latest_def)
  then show ?thesis by simp
qed

text \<open>
  A root that holds only the file \<^verbatim>\<open>notes.txt\<close>.
\<close>

theorem no_checkpoint_dirs_raises_not_found_witness:
  "load_config (example_env [''notes.txt'']) ''configs/config.yaml'' = Inr example_config
   \<and> listdir (example_env [''notes.txt'']) (checkpoint_dir example_config) = Inr [''notes.txt'']
   \<and> \<not> isdir (example_env [''notes.txt''])
         (path_join (checkpoint_dir example_config) ''notes.txt'')
   \<and> main (example_env [''notes.txt''])
       = ([Load_config ''configs/config.yaml'', Construct_model 20 (1 / 2),
           Listdir ''checkpoints''], Some FileNotFoundError)"
proof -
  have c: "load_config (example_env [''notes.txt'']) ''configs/config.yaml'' = Inr example_config"
    and l: "listdir (example_env [''notes.txt'']) (checkpoint_dir example_config)
              = Inr [''notes.txt'']"
    by (simp_all add: example_env_def)
  have n: "\<forall>d\<in>set [''notes.txt''].
      \<not> isdir (example_env [''notes.txt'']) (path_join (checkpoint_dir example_config) d)"
    by (simp add: example_env_def example_config_def path_join_def)
  from no_checkpoint_dirs_raises_not_found [OF c l n]
  have "main (example_env [''notes.txt''])
       = ([Load_config ''configs/config.yaml'', Construct_model 20 (1 / 2),
           Listdir ''checkpoints''], Some FileNotFoundError)"
    by (simp add: example_config_def)
  with c l n show ?thesis by simp
qed

subsection \<open>The bounding box\<close>

text \<open>
  Claim C7, as amended: for every sample with at least two distinct points (a positive
  largest span) on which the float32 arithmetic of lines 59 to 71 is exact (none of the
  spans, the half-width, the sums, the midpoints and the six limits is rounded or
  overflows). The limits the loop body sets on a subplot then form a cube: the
  half-width \<open>r\<close> is half the largest of the three column spans, and each axis runs from
  its column's midpoint minus \<open>r\<close> to the midpoint plus \<open>r\<close>. Every run that returns has
  given both subplots these limits. Columns ranging over \<open>[0,2]\<close>, \<open>[0,4]\<close> and \<open>[0,1]\<close> are
  such coordinates: the half-width is 2, the midpoints are 1, 2 and 1/2, and the limits
  are \<open>(-1, 3)\<close>, \<open>(0, 4)\<close> and \<open>(-3/2, 5/2)\<close>.
\<close>

theorem bounding_box_is_cube_around_midpoints:
  assumes "data_x data \<noteq> []"
  shows "((\<forall>v\<in>set (box_values (data_x data)). f32_round v = Some v)
          \<and> 0 < Max {span (col_x (data_x data)), span (col_y (data_x data)),
                     span (col_z (data_x data))}
          \<longrightarrow> (\<exists>box r. axis_limits (data_x data) = Inr box
                \<and> r = Max {span (col_x (data_x data)), span (col_y (data_x data)),
                           span (col_z (data_x data))} / 2
                \<and> xlim box = (midpoint (col_x (data_x data)) - r, midpoint (col_x (data_x data)) + r)
                \<and> ylim box = (midpoint (col_y (data_x data)) - r, midpoint (col_y (data_x data)) + r)
                \<and> zlim box = (midpoint (col_z (data_x data)) - r, midpoint (col_z (data_x data)) + r)
                \<and> snd (xlim box) - fst (xlim box) = 2 * r
                \<and> snd (ylim box) - fst (ylim box) = 2 * r
                \<and> snd (zlim box) - fst (zlim box) = 2 * r
                \<and> (\<forall>softmax model savefig save_path evs fig.
                      visualize_prediction softmax model savefig data save_path = (evs, Inr fig)
                      \<longrightarrow> ax1_limits fig = box \<and> ax2_limits fig = box)))
         \<and> (Min (set (col_x (data_x data))) = 0 \<and> Max (set (col_x (data_x data))) = 2
            \<and> Min (set (col_y (data_x data))) = 0 \<and> Max (set (col_y (data_x data))) = 4
            \<and> Min (set (col_z (data_x data))) = 0 \<and> Max (set (col_z (data_x data))) = 1
            \<longrightarrow> (\<forall>v\<in>set (box_values (data_x data)). f32_round v = Some v)
              \<and> Max {span (col_x (data_x data)), span (col_y (data_x data)),
                      span (col_z (data_x data))} / 2 = 2
              \<and> midpoint (col_x (data_x data)) = 1
              \<and> midpoint (col_y (data_x data)) = 2 \<and> midpoint (col_z (data_x data)) = 1 / 2
              \<and> axis_limits (data_x data)
                  = Inr \<lparr>xlim = (- 1, 3), ylim = (0, 4), zlim = (- 3 / 2, 5 / 2)\<rparr>)"
proof -
  let ?pts = "data_x data"
  let ?r = "Max {span (col_x ?pts), span (col_y ?pts), span (col_z ?pts)} / 2"
  define box where "box = \<lparr>xlim = (midpoint (col_x ?pts) - ?r, midpoint (col_x ?pts) + ?r),
     ylim = (midpoint (col_y ?pts) - ?r, midpoint (col_y ?pts) + ?r),
     zlim = (midpoint (col_z ?pts) - ?r, midpoint (col_z ?pts) + ?r)\<rparr>"
  have general: "\<exists>box r. axis_limits ?pts = Inr box \<and> r = ?r
      \<and> xlim box = (midpoint (col_x ?pts) - r, midpoint (col_x ?pts) + r)
      \<and> ylim box = (midpoint (col_y ?pts) - r, midpoint (col_y ?pts) + r)
      \<and> zlim box = (midpoint (col_z ?pts) - r, midpoint (col_z ?pts) + r)
      \<and> snd (xlim box) - fst (xlim box) = 2 * r
      \<and> snd (ylim box) - fst (ylim box) = 2 * r
      \<and> snd (zlim box) - fst (zlim box) = 2 * r
      \<and> (\<forall>softmax model savefig save_path evs fig.
            visualize_prediction softmax model savefig data save_path = (evs, Inr fig)
            \<longrightarrow> ax1_limits fig = box \<and> ax2_limits fig = box)"
    if ex: "\<forall>v\<in>set (box_values ?pts). f32_round v = Some v"
  proof -
    have b: "axis_limits ?pts = Inr box"
      unfolding box_def by (rule axis_limits_exact [OF assms ex refl])
    have link: "ax1_limits fig = box \<and> ax2_limits fig = box"
      if "visualize_prediction softmax model savefig data save_path = (evs, Inr fig)"
      for softmax model savefig save_path evs fig
      using render_Inr(4,5) [OF visualize_prediction_Inr(2) [OF that]] b by simp
    show ?thesis
      using b link by (intro exI [of _ box] exI [of _ ?r]) (simp add: box_def)
  qed
  have particular: "(\<forall>v\<in>set (box_values ?pts). f32_round v = Some v)
      \<and> ?r = 2 \<and> midpoint (col_x ?pts) = 1 \<and> midpoint (col_y ?pts) = 2
      \<and> midpoint (col_z ?pts) = 1 / 2
      \<and> axis_limits ?pts = Inr \<lparr>xlim = (- 1, 3), ylim = (0, 4), zlim = (- 3 / 2, 5 / 2)\<rparr>"
    if rg: "Min (set (col_x ?pts)) = 0 \<and> Max (set (col_x ?pts)) = 2
      \<and> Min (set (col_y ?pts)) = 0 \<and> Max (set (col_y ?pts)) = 4
      \<and> Min (set (col_z ?pts)) = 0 \<and> Max (set (col_z ?pts)) = 1"
  proof -
    have bv: "box_values ?pts = [2, 4, 1, 2, 2, 4, 1, 1, 2, 1 / 2, - 1, 3, 0, 4, - (3 / 2), 5 / 2]"
      using rg by (simp add: box_values_def span_def midpoint_def Let_def)
    have ex: "\<forall>v\<in>set (box_values ?pts). f32_round v = Some v"
      unfolding bv by (simp add: f32_round_small)
    have vals: "?r = 2 \<and> midpoint (col_x ?pts) = 1 \<and> midpoint (col_y ?pts) = 2
        \<and> midpoint (col_z ?pts) = 1 / 2"
      using rg by (simp add: span_def midpoint_def)
    have "axis_limits ?pts = Inr \<lparr>xlim = (- 1, 3), ylim = (0, 4), zlim = (- 3 / 2, 5 / 2)\<rparr>"
      using rg by (intro axis_limits_ranges assms) simp_all
    with ex vals show ?thesis by blast
  qed
  from general particular show ?thesis by blast
qed

text \<open>
  The limits of \<open>example_sample\<close>, whose columns have exactly these ranges.
\<close>

theorem bounding_box_is_cube_around_midpoints_witness:
  "data_x example_sample \<noteq> []
   \<and> map f32_round (box_values (data_x example_sample))
       = map Some (box_values (data_x example_sample))
   \<and> Max {span (col_x (data_x example_sample)), span (col_y (data_x example_sample)),
           span (col_z (data_x example_sample))} = 4
   \<and> Min (set (col_x (data_x example_sample))) = 0 \<and> Max (set (col_x (data_x example_sample))) = 2
   \<and> Min (set (col_y (data_x example_sample))) = 0 \<and> Max (set (col_y (data_x example_sample))) = 4
   \<and> Min (set (col_z (data_x example_sample))) = 0 \<and> Max (set (col_z (data_x example_sample))) = 1
   \<and> axis_limits (data_x example_sample)
        = Inr \<lparr>xlim = (1 - 2, 1 + 2), ylim = (2 - 2, 2 + 2), zlim = (1 / 2 - 2, 1 / 2 + 2)\<rparr>
   \<and> ax1_limits example_plot = ax2_limits example_plot"
proof -
  have ne: "data_x example_sample \<noteq> []" by (simp add: example_sample_def)
  have ranges: "Min (set (col_x (data_x example_sample))) = 0
      \<and> Max (set (col_x (data_x example_sample))) = 2
      \<and> Min (set (col_y (data_x example_sample))) = 0
      \<and> Max (set (col_y (data_x example_sample))) = 4
      \<and> Min (set (col_z (data_x example_sample))) = 0
      \<and> Max (set (col_z (data_x example_sample))) = 1"
    by (simp add: example_sample_def col_x_def col_y_def col_z_def)
  have m: "Max {span (col_x (data_x example_sample)), span (col_y (data_x example_sample)),
           span (col_z (data_x example_sample))} = 4"
    using ranges by (simp add: span_def)
  note box = bounding_box_is_cube_around_midpoints [OF ne]
  from box ranges
  have ex: "\<forall>v\<in>set (box_values (data_x example_sample)). f32_round v = Some v"
    and vals: "Max {span (col_x (data_x example_sample)), span (col_y (data_x example_sample)),
           span (col_z (data_x example_sample))} / 2 = 2
      \<and> midpoint (col_x (data_x example_sample)) = 1
      \<and> midpoint (col_y (data_x example_sample)) = 2
      \<and> midpoint (col_z (data_x example_sample)) = 1 / 2"
    by blast+
  have pos: "0 < Max {span (col_x (data_x example_sample)), span (col_y (data_x example_sample)),
           span (col_z (data_x example_sample))}"
    unfolding m by simp
  from box ex pos obtain b r
    where b: "axis_limits (data_x example_sample) = Inr b"
      and r: "r = Max {span (col_x (data_x example_sample)), span (col_y (data_x example_sample)),
           span (col_z (data_x example_sample))} / 2"
      and x: "xlim b = (midpoint (col_x (data_x example_sample)) - r,
                        midpoint (col_x (data_x example_sample)) + r)"
      and y: "ylim b = (midpoint (col_y (data_x example_sample)) - r,
                        midpoint (col_y (data_x example_sample)) + r)"
      and z: "zlim b = (midpoint (col_z (data_x example_sample)) - r,
                        midpoint (col_z (data_x example_sample)) + r)"
      and same: "\<forall>softmax model savefig save_path evs fig.
                 visualize_prediction softmax model savefig example_sample save_path
                   = (evs, Inr fig)
                 \<longrightarrow> ax1_limits fig = b \<and> ax2_limits fig = b"
    by blast
  have "b = \<lparr>xlim = (1 - 2, 1 + 2), ylim = (2 - 2, 2 + 2), zlim = (1 / 2 - 2, 1 / 2 + 2)\<rparr>"
    using x y z r vals by (cases b) simp
  moreover have "ax1_limits example_plot = ax2_limits example_plot"
    using same example_run_unsaved by metis
  moreover have "map f32_round (box_values (data_x example_sample))
       = map Some (box_values (data_x example_sample))"
    using ex by simp
  ultimately show ?thesis using ne ranges m b by simp
qed

text \<open>
  Claim C7 as stated, for every sample, fails in three ways. On the sample without
  points the first \<^verbatim>\<open>points[:, 0].max()\<close> raises ValueError, so no subplot gets limits and
  the routine ends with that exception. On the two points \<open>(1, 0, 0)\<close> and
  \<open>(1 / 2 ^ 24, 0, 0)\<close> the sum \<open>1 + 1 / 2 ^ 24\<close> and the upper x limit are rounded: the x axis
  gets the limits \<open>(1 / 2 ^ 25, 1)\<close>, which are not centred on the midpoint
  \<open>(1 + 1 / 2 ^ 24) / 2\<close> and are wider than the y and z axes. On the two points
  \<open>(2 ^ 127, 0, 0)\<close> and \<open>(- 2 ^ 127, 0, 0)\<close> the x span overflows to infinity and
  \<^verbatim>\<open>set_xlim\<close> raises ValueError.
\<close>

theorem bounding_box_counterexample:
  "axis_limits (data_x empty_sample) = Inl ValueError
   \<and> visualize_prediction softmax_exact oracle_model savefig_ok empty_sample None
       = ([Forward], Inl ValueError)
   \<and> axis_limits (data_x rounding_sample)
       = Inr \<lparr>xlim = (1 / 2 ^ 25, 1),
              ylim = (- ((1 - 1 / 2 ^ 24) / 2), (1 - 1 / 2 ^ 24) / 2),
              zlim = (- ((1 - 1 / 2 ^ 24) / 2), (1 - 1 / 2 ^ 24) / 2)\<rparr>
   \<and> midpoint (col_x (data_x rounding_sample)) = (1 + 1 / 2 ^ 24) / 2
   \<and> Max {span (col_x (data_x rounding_sample)), span (col_y (data_x rounding_sample)),
           span (col_z (data_x rounding_sample))} / 2 = (1 - 1 / 2 ^ 24) / 2
   \<and> axis_limits (data_x overflow_sample) = Inl ValueError"
proof -
  have a: "axis_limits (data_x empty_sample) = Inl ValueError"
    by (simp add: empty_sample_def axis_limits_empty)
  have i: "infer softmax_exact oracle_model empty_sample = Inr []"
    by (simp add: infer_def oracle_model_def empty_sample_def)
  have c: "color_array (data_y empty_sample) = Inr []" "color_array [] = Inr []"
    by (simp_all add: color_array_def empty_sample_def)
  have s: "scatter (data_x empty_sample) [] = None" by (simp add: scatter_def)
  have r: "render empty_sample [] = Inl ValueError"
    by (simp add: render_def Let_def c s a)
  have run: "visualize_prediction softmax_exact oracle_model savefig_ok empty_sample None
       = ([Forward], Inl ValueError)"
    by (simp add: visualize_prediction_def i r)
  have m: "midpoint (col_x (data_x rounding_sample)) = (1 + 1 / 2 ^ 24) / 2"
    by (simp add: rounding_sample_def col_x_def midpoint_def)
  have h: "Max {span (col_x (data_x rounding_sample)), span (col_y (data_x rounding_sample)),
           span (col_z (data_x rounding_sample))} / 2 = (1 - 1 / 2 ^ 24) / 2"
    by (simp add: rounding_sample_def col_x_def col_y_def col_z_def span_def)
  from a run axis_limits_rounding m h axis_limits_overflow show ?thesis by blast
qed

subsection \<open>Saving before showing\<close>

text \<open>
  Claim C8, as amended: the save path counts as given when it is a non-empty string.
  In every invocation with such a path, the display is preceded, directly, by the one
  call that writes the figure to that path at 300 dpi with a tight bounding box. With no
  path or the empty path \<^verbatim>\<open>savefig\<close> is never called. A run that returns has shown the
  figure; a run that raises has not.
\<close>

theorem figure_saved_before_shown:
  assumes "visualize_prediction softmax model savefig data save_path = (evs, res)"
  shows "(\<forall>p. save_path = Some p \<and> p \<noteq> [] \<and> Show \<in> set evs
            \<longrightarrow> (\<exists>rest. evs = Forward # Savefig p 300 ''tight'' # Show # rest
                   \<and> Show \<notin> set rest \<and> (\<forall>q d b. Savefig q d b \<notin> set rest)))
         \<and> (save_path = None \<or> save_path = Some [] \<longrightarrow> (\<forall>q d b. Savefig q d b \<notin> set evs))
         \<and> (\<forall>fig. res = Inr fig \<longrightarrow> Show \<in> set evs)
         \<and> (\<forall>e. res = Inl e \<longrightarrow> Show \<notin> set evs)"
proof (cases res)
  case (Inl e)
  from visualize_prediction_Inl [OF assms [unfolded Inl]] Inl show ?thesis
    by (auto simp: truthy_def)
next
  case (Inr fig)
  let ?rep = "report (data_y data) (map int (pred_classes fig))"
  have rep: "Show \<notin> set ?rep" "\<And>q d b. Savefig q d b \<notin> set ?rep"
    by (simp_all add: report_def report_class_def upt_5)
  have evs: "evs = (if truthy save_path then [Forward, Savefig (the save_path) 300 ''tight'', Show]
                else [Forward, Show]) @ ?rep"
    by (rule visualize_prediction_Inr(3) [OF assms [unfolded Inr]])
  show ?thesis
  proof (cases "truthy save_path")
    case True
    then obtain p where p: "save_path = Some p" "p \<noteq> []"
      by (auto simp: truthy_def split: option.splits)
    with evs True have "evs = Forward # Savefig p 300 ''tight'' # Show # ?rep" by simp
    with rep p Inr show ?thesis by auto
  next
    case False
    then have np: "save_path = None \<or> save_path = Some []"
      by (auto simp: truthy_def split: option.splits)
    from evs False have "evs = Forward # Show # ?rep" by simp
    with rep np Inr show ?thesis by auto
  qed
qed

text \<open>
  The run on \<open>example_sample\<close> with the path \<^verbatim>\<open>out.png\<close> and without a path.
\<close>

theorem figure_saved_before_shown_witness:
  "visualize_prediction softmax_exact oracle_model savefig_ok example_sample (Some ''out.png'')
     = (Forward # Savefig ''out.png'' 300 ''tight'' # Show # example_report, Inr example_plot)
   \<and> Show \<notin> set example_report \<and> (\<forall>q d b. Savefig q d b \<notin> set example_report)
   \<and> visualize_prediction softmax_exact oracle_model savefig_ok example_sample None
     = (Forward # Show # example_report, Inr example_plot)
   \<and> (\<forall>q d b. Savefig q d b \<notin> set (Forward # Show # example_report))
   \<and> Show \<in> set (Forward # Show # example_report)"
proof -
  from figure_saved_before_shown [OF example_run_saved]
  have "\<exists>rest. Forward # Savefig ''out.png'' 300 ''tight'' # Show # example_report
          = Forward # Savefig ''out.png'' 300 ''tight'' # Show # rest
          \<and> Show \<notin> set rest \<and> (\<forall>q d b. Savefig q d b \<notin> set rest)"
    by simp
  then have saved: "Show \<notin> set example_report \<and> (\<forall>q d b. Savefig q d b \<notin> set example_report)"
    by simp
  from figure_saved_before_shown [OF example_run_unsaved]
  have unsaved: "(\<forall>q d b. Savefig q d b \<notin> set (Forward # Show # example_report))
      \<and> Show \<in> set (Forward # Show # example_report)"
    by simp
  from saved unsaved example_run_saved example_run_unsaved show ?thesis by simp
qed

text \<open>
  Claim C8 as stated, for every save path that is given, fails on the empty string: the
  test \<^verbatim>\<open>if save_path:\<close> is false for it, the figure is shown and no file is written.
\<close>

theorem empty_save_path_counterexample:
  "visualize_prediction softmax_exact oracle_model savefig_ok example_sample (Some [])
     = (Forward # Show # example_report, Inr example_plot)
   \<and> Show \<in> set (Forward # Show # example_report)
   \<and> Savefig [] 300 ''tight'' \<notin> set (Forward # Show # example_report)"
  by (simp add: example_run_empty_path example_report_def)

subsection \<open>Softmax and the argmax of the logits\<close>

text \<open>
  Claim C9, as amended: for every logits tensor on whose rows the computed softmax keeps
  the length and the strict order of the entries, as the exact softmax does on every
  row. The predicted classes are then the per-row argmax of the raw logits, so the
  softmax step changes no predicted class.
\<close>

theorem softmax_keeps_argmax_when_order_preserving:
  assumes "model data = Inr outputs"
  shows "((\<forall>row\<in>set outputs. length (softmax row) = length row
             \<and> (\<forall>i<length row. \<forall>j<length row.
                   softmax row ! i < softmax row ! j \<longleftrightarrow> row ! i < row ! j))
          \<longrightarrow> infer softmax model data = map_result argmax outputs)
         \<and> (\<forall>row. length (softmax_exact row) = length row
               \<and> (\<forall>i<length row. \<forall>j<length row.
                     softmax_exact row ! i < softmax_exact row ! j \<longleftrightarrow> row ! i < row ! j))
         \<and> infer softmax_exact model data = map_result argmax outputs"
proof -
  have general: "infer sm model data = map_result argmax outputs"
    if H: "\<forall>row\<in>set outputs. length (sm row) = length row
          \<and> (\<forall>i<length row. \<forall>j<length row. sm row ! i < sm row ! j \<longleftrightarrow> row ! i < row ! j)"
    for sm
  proof -
    have "argmax (sm row) = argmax row" if "row \<in> set outputs" for row
      using H that by (intro argmax_order_preserving) blast+
    then have "map_result (\<lambda>row. argmax (sm row)) outputs = map_result argmax outputs"
      by (rule map_result_cong)
    then show ?thesis
      by (simp add: infer_def assms map_result_map)
  qed
  have exact: "\<forall>row. length (softmax_exact row) = length row
      \<and> (\<forall>i<length row. \<forall>j<length row.
            softmax_exact row ! i < softmax_exact row ! j \<longleftrightarrow> row ! i < row ! j)"
    using softmax_exact_order by blast
  then have "infer softmax_exact model data = map_result argmax outputs"
    by (intro general) blast
  with general [of softmax] exact show ?thesis by blast
qed

text \<open>
  The exact softmax and the oracle network on \<open>example_sample\<close>.
\<close>

theorem softmax_keeps_argmax_when_order_preserving_witness:
  "oracle_model example_sample = Inr (map one_hot [0, 1, 2, 3, 4])
   \<and> infer softmax_exact oracle_model example_sample = Inr [0, 1, 2, 3, 4]
   \<and> map_result argmax (map one_hot [0, 1, 2, 3, 4]) = Inr [0, 1, 2, 3, 4]
   \<and> softmax_exact [0, 1] ! 0 < softmax_exact [0, 1] ! 1"
proof -
  have m: "oracle_model example_sample = Inr (map one_hot [0, 1, 2, 3, 4])"
    by (simp add: oracle_model_def example_sample_def)
  note inst = softmax_keeps_argmax_when_order_preserving [where model = oracle_model
      and data = example_sample and softmax = softmax_exact, OF m]
  from inst have order: "\<forall>row. length (softmax_exact row) = length row
      \<and> (\<forall>i<length row. \<forall>j<length row.
            softmax_exact row ! i < softmax_exact row ! j \<longleftrightarrow> row ! i < row ! j)"
    by blast
  then have "\<forall>row\<in>set (map one_hot [0, 1, 2, 3, 4]). length (softmax_exact row) = length row
      \<and> (\<forall>i<length row. \<forall>j<length row.
            softmax_exact row ! i < softmax_exact row ! j \<longleftrightarrow> row ! i < row ! j)"
    by blast
  with inst have "infer softmax_exact oracle_model example_sample
      = map_result argmax (map one_hot [0, 1, 2, 3, 4])"
    by blast
  with infer_oracle_example
  have a: "map_result argmax (map one_hot [0, 1, 2, 3, 4]) = Inr [0, 1, 2, 3, 4]" by simp
  from order have "\<forall>i<length [0, 1 :: real]. \<forall>j<length [0, 1 :: real].
      softmax_exact [0, 1] ! i < softmax_exact [0, 1] ! j \<longleftrightarrow> [0, 1 :: real] ! i < [0, 1] ! j"
    by blast
  then have "softmax_exact [0, 1] ! 0 < softmax_exact [0, 1] ! 1 \<longleftrightarrow> [0, 1 :: real] ! 0 < [0, 1] ! 1"
    by simp
  then have o: "softmax_exact [0, 1] ! 0 < softmax_exact [0, 1] ! 1" by simp
  from m infer_oracle_example a o show ?thesis by blast
qed

text \<open>
  Claim C9 as stated, for every logits tensor, fails for the float32 softmax on the
  rows \<open>[0, 1 / 2 ^ 40, 0]\<close> and \<open>[0, 0, 1 / 2 ^ 40]\<close>: the exponentials of \<open>- 1 / 2 ^ 40\<close> and of
  0 both round to 1, the three probabilities of each row are equal, and the argmax
  answers the first index, 0, where the argmax of the logits is 1 and 2.
\<close>

theorem softmax_float32_counterexample:
  "tie_model rounding_sample = Inr [[0, 1 / 2 ^ 40, 0], [0, 0, 1 / 2 ^ 40]]
   \<and> softmax_f32 [0, 1 / 2 ^ 40, 0] = [f32_near (1 / 3), f32_near (1 / 3), f32_near (1 / 3)]
   \<and> softmax_f32 [0, 0, 1 / 2 ^ 40] = [f32_near (1 / 3), f32_near (1 / 3), f32_near (1 / 3)]
   \<and> infer softmax_f32 tie_model rounding_sample = Inr [0, 0]
   \<and> map_result argmax [[0, 1 / 2 ^ 40, 0], [0, 0, 1 / 2 ^ 40]] = Inr [1, 2]"
proof -
  have t: "(0::real) < 1 / 2 ^ 40" "(1::real) / 2 ^ 40 < 1 / 2 ^ 25" by simp_all
  have x: "f32_near (- (1 / 2 ^ 40)) = - (1 / 2 ^ 40)"
    by (rule f32_near_exact [of _ "- 1" 40]) simp_all
  note rows = softmax_f32_tie [OF t x]
  have m: "tie_model rounding_sample = Inr [[0, 1 / 2 ^ 40, 0], [0, 0, 1 / 2 ^ 40]]"
    by (simp add: tie_model_def)
  have i: "infer softmax_f32 tie_model rounding_sample = Inr [0, 0]"
    unfolding infer_def m sum.case Let_def list.map rows map_result.simps argmax_tie
    by simp
  have a: "map_result argmax [[0, 1 / 2 ^ 40, 0], [0, 0, 1 / 2 ^ 40]] = Inr [1, 2]"
    by (simp add: argmax_def)
  from m rows i a show ?thesis by blast
qed

subsection \<open>Negative labels\<close>

text \<open>
  Claim C10. A label in \<open>-5..-1\<close> does not make the colour lookup raise: it selects the
  colour counted from the end of the list, \<open>-1\<close> selecting red. A sample whose labels lie
  in \<open>-5..4\<close>, and which otherwise keeps the contract of the routine (one row of one to
  five logits and one label per point, finite axis limits, a file that can be written), is
  plotted without an exception, with these wrapped colours in the ground-truth plot.
  (A predicted class is an index returned by argmax and is never negative.)
\<close>

theorem negative_labels_wrap_to_end_of_colors:
  assumes "model data = Inr outputs"
    and "\<forall>row\<in>set outputs. softmax row \<noteq> [] \<and> length (softmax row) \<le> 5"
    and "length outputs = length (data_x data)"
    and "length (data_y data) = length (data_x data)"
    and "axis_limits (data_x data) = Inr box"
    and "\<forall>c\<in>set (data_y data). - 5 \<le> c \<and> c \<le> 4"
    and "truthy save_path \<longrightarrow> savefig (the save_path) = None"
  shows "(\<exists>evs fig. visualize_prediction softmax model savefig data save_path = (evs, Inr fig)
            \<and> (\<forall>i<length (data_y data). data_y data ! i < 0
                  \<longrightarrow> gt_colors fig ! i = colors ! nat (data_y data ! i + 5)
                    \<and> gt_colors fig ! i \<in> set colors))
         \<and> (\<forall>c. - 5 \<le> c \<and> c \<le> - 1
               \<longrightarrow> color_of c = Inr (colors ! nat (c + 5)) \<and> colors ! nat (c + 5) \<in> set colors)
         \<and> color_of (- 1) = Inr ''red''"
proof -
  from visualize_prediction_total [where model = model and softmax = softmax
      and savefig = savefig and save_path = save_path, OF assms]
  obtain evs fig
    where run: "visualize_prediction softmax model savefig data save_path = (evs, Inr fig)"
    by blast
  have gt: "color_array (data_y data) = Inr (gt_colors fig)"
    by (rule render_Inr(2) [OF visualize_prediction_Inr(2) [OF run]])
  have wrap: "gt_colors fig ! i = colors ! nat (data_y data ! i + 5)
      \<and> gt_colors fig ! i \<in> set colors"
    if "i < length (data_y data)" and "data_y data ! i < 0" for i
  proof -
    have c: "color_of (data_y data ! i) = Inr (gt_colors fig ! i)"
      using gt that(1) by (auto simp: color_array_def dest: map_result_nth)
    have "- 5 \<le> data_y data ! i" using assms(6) that(1) by simp
    with that(2) have "color_of (data_y data ! i) = Inr (colors ! nat (data_y data ! i + 5))"
      by (intro color_of_negative) simp_all
    with c color_of_in_colors [OF c] show ?thesis by simp
  qed
  have lookup: "color_of c = Inr (colors ! nat (c + 5)) \<and> colors ! nat (c + 5) \<in> set colors"
    if "- 5 \<le> c \<and> c \<le> - 1" for c
  proof -
    from that have c: "color_of c = Inr (colors ! nat (c + 5))"
      by (intro color_of_negative) simp_all
    with color_of_in_colors [OF c] show ?thesis by simp
  qed
  have red: "color_of (- 1) = Inr ''red''"
    by (simp add: color_of_def py_index_def colors_def)
  from run wrap lookup red show ?thesis by blast
qed

text \<open>
  The sample with the labels \<open>[-1, 0]\<close>: its ground-truth colours are red and blue.
\<close>

theorem negative_labels_wrap_to_end_of_colors_witness:
  "oracle_model wrapped_sample = Inr [one_hot (- 1), one_hot 0]
   \<and> map length (map softmax_exact [one_hot (- 1), one_hot 0]) = [5, 5]
   \<and> length (data_x wrapped_sample) = 2 \<and> data_y wrapped_sample = [- 1, 0]
   \<and> axis_limits (data_x wrapped_sample)
       = Inr \<lparr>xlim = (0, 1), ylim = (0, 1), zlim = (0, 1)\<rparr>
   \<and> (\<exists>evs fig. visualize_prediction softmax_exact oracle_model savefig_ok wrapped_sample None
          = (evs, Inr fig) \<and> gt_colors fig = [''red'', ''blue''])"
proof -
  have m: "oracle_model wrapped_sample = Inr [one_hot (- 1), one_hot 0]"
    by (simp add: oracle_model_def wrapped_sample_def)
  have rows: "\<forall>row\<in>set [one_hot (- 1), one_hot 0].
      softmax_exact row \<noteq> [] \<and> length (softmax_exact row) \<le> 5"
    by (simp add: softmax_exact_def one_hot_def)
  have lo: "length [one_hot (- 1), one_hot 0] = length (data_x wrapped_sample)"
    and ly: "length (data_y wrapped_sample) = length (data_x wrapped_sample)"
    and ry: "\<forall>c\<in>set (data_y wrapped_sample). - 5 \<le> c \<and> c \<le> 4"
    and lx: "length (data_x wrapped_sample) = 2" and y: "data_y wrapped_sample = [- 1, 0]"
    by (simp_all add: wrapped_sample_def)
  have sv: "truthy None \<longrightarrow> savefig_ok (the None) = None" by (simp add: truthy_def)
  from negative_labels_wrap_to_end_of_colors [where model = oracle_model
      and softmax = softmax_exact and savefig = savefig_ok and save_path = None,
      OF m rows lo ly axis_limits_wrapped ry sv]
  have "\<exists>evs fig. visualize_prediction softmax_exact oracle_model savefig_ok wrapped_sample None
          = (evs, Inr fig)
        \<and> (\<forall>i<length (data_y wrapped_sample). data_y wrapped_sample ! i < 0
              \<longrightarrow> gt_colors fig ! i = colors ! nat (data_y wrapped_sample ! i + 5)
                \<and> gt_colors fig ! i \<in> set colors)"
    by blast
  then have "\<exists>evs fig. visualize_prediction softmax_exact oracle_model savefig_ok
      wrapped_sample None = (evs, Inr fig) \<and> gt_colors fig = [''red'', ''blue'']"
    unfolding wrapped_run by simp
  moreover have "map length (map softmax_exact [one_hot (- 1), one_hot 0]) = [5, 5]"
    by (simp add: softmax_exact_def one_hot_def)
  ultimately show ?thesis using m lx y axis_limits_wrapped by blast
qed

end
